theory Spec2Isabelle
  imports
    Complex_Main
    "HOL-Library.Char_ord"
    "HOL-Library.List_Lexorder"
    "HOL-Library.Product_Lexorder"
begin

section \<open>Cash-register audit ledger (audit.py)\<close>

text \<open>
  The embedding follows \<^verbatim>\<open>audit.py\<close>: the SQLite table \<^verbatim>\<open>audits\<close>, the four
  database functions, the two colouring rules and the script \<^verbatim>\<open>app_main\<close> that
  Streamlit runs once per user interaction.

  Monetary amounts are Python floats in the source. They are embedded as \<^typ>\<open>real\<close>:
  the claims below use subtraction once and comparison against two constants, and
  comparison of floats agrees with comparison of the reals they denote.
  Text is \<^typ>\<open>string\<close>; SQLite compares \<^verbatim>\<open>TEXT\<close> values byte by byte, which on
  lists of characters is the lexicographic order of \<open>List_Lexorder\<close> over \<open>Char_ord\<close>.
\<close>

subsection \<open>Configuration\<close>

definition ADMIN_PASSWORD :: string where
  "ADMIN_PASSWORD = ''123456''"

text \<open>The first entry of the three personnel select boxes.\<close>

definition PLACEHOLDER :: string where
  "PLACEHOLDER = ''Selecione...''"

subsection \<open>Civil dates and their text form\<close>

text \<open>
  \<^verbatim>\<open>datetime.date\<close> and a naive view of \<^verbatim>\<open>datetime.datetime\<close>
  (the zone is fixed to America/Sao\_Paulo before formatting, so only the civil fields
  are ever stored).
\<close>

record pydate =
  year :: nat
  month :: nat
  day :: nat

record pydatetime =
  date_part :: pydate
  hour :: nat
  minute :: nat
  second :: nat

definition is_leap :: "nat \<Rightarrow> bool" where
  "is_leap y \<longleftrightarrow> y mod 4 = 0 \<and> (y mod 100 \<noteq> 0 \<or> y mod 400 = 0)"

definition days_in_month :: "nat \<Rightarrow> nat \<Rightarrow> nat" where
  "days_in_month y m =
     (if m = 2 then (if is_leap y then 29 else 28)
      else if m = 4 \<or> m = 6 \<or> m = 9 \<or> m = 11 then 30 else 31)"

text \<open>The values a \<^verbatim>\<open>date\<close> object can hold: 0001-01-01 to 9999-12-31.\<close>

definition valid_date :: "pydate \<Rightarrow> bool" where
  "valid_date d \<longleftrightarrow>
     1 \<le> year d \<and> year d \<le> 9999 \<and> 1 \<le> month d \<and> month d \<le> 12 \<and>
     1 \<le> day d \<and> day d \<le> days_in_month (year d) (month d)"

definition valid_datetime :: "pydatetime \<Rightarrow> bool" where
  "valid_datetime t \<longleftrightarrow>
     valid_date (date_part t) \<and> hour t < 24 \<and> minute t < 60 \<and> second t < 60"

definition date_max :: pydate where
  "date_max = \<lparr>year = 9999, month = 12, day = 31\<rparr>"

text \<open>Python orders dates and datetimes field by field.\<close>

definition date_key :: "pydate \<Rightarrow> nat \<times> nat \<times> nat" where
  "date_key d = (year d, month d, day d)"

definition datetime_key :: "pydatetime \<Rightarrow> (nat \<times> nat \<times> nat) \<times> nat \<times> nat \<times> nat" where
  "datetime_key t = (date_key (date_part t), hour t, minute t, second t)"

definition at_time :: "pydate \<Rightarrow> nat \<Rightarrow> nat \<Rightarrow> nat \<Rightarrow> pydatetime" where
  "at_time d h m s = \<lparr>date_part = d, hour = h, minute = m, second = s\<rparr>"

datatype error = OverflowError | KeyError

text \<open>
  \<^verbatim>\<open>d + timedelta(days=1)\<close>: the next civil day; Python raises
  \<^verbatim>\<open>OverflowError\<close> when the result would lie after \<^verbatim>\<open>date.max\<close>.
\<close>

definition add_one_day :: "pydate \<Rightarrow> error + pydate" where
  "add_one_day d =
     (if day d < days_in_month (year d) (month d) then Inr (d\<lparr>day := day d + 1\<rparr>)
      else if month d < 12 then Inr (d\<lparr>month := month d + 1, day := 1\<rparr>)
      else if year d < 9999 then Inr \<lparr>year = year d + 1, month = 1, day = 1\<rparr>
      else Inl OverflowError)"

definition digit_char :: "nat \<Rightarrow> char" where
  "digit_char n = char_of (48 + n)"

definition pad2 :: "nat \<Rightarrow> string" where
  "pad2 n = [digit_char (n div 10 mod 10), digit_char (n mod 10)]"

definition pad4 :: "nat \<Rightarrow> string" where
  "pad4 n = [digit_char (n div 1000 mod 10), digit_char (n div 100 mod 10),
             digit_char (n div 10 mod 10), digit_char (n mod 10)]"

text \<open>The decimal digits of a number, without leading zeros.\<close>

fun decimal :: "nat \<Rightarrow> string" where
  "decimal n =
     (if n < 10 then [digit_char n] else decimal (n div 10) @ [digit_char (n mod 10)])"

declare decimal.simps [simp del]

text \<open>
  \<^verbatim>\<open>strftime('%Y-%m-%d')\<close> and \<^verbatim>\<open>strftime('%Y-%m-%d %H:%M:%S')\<close>. Month, day,
  hour, minute and second take two digits each. The year is printed by the C
  library's \<^verbatim>\<open>%Y\<close>, which writes its decimal digits and does not pad: the first
  day of the year 999 reads \<^verbatim>\<open>999-01-01\<close>.
\<close>

definition strftime_date :: "pydate \<Rightarrow> string" where
  "strftime_date d = decimal (year d) @ ''-'' @ pad2 (month d) @ ''-'' @ pad2 (day d)"

definition strftime_datetime :: "pydatetime \<Rightarrow> string" where
  "strftime_datetime t =
     strftime_date (date_part t) @ '' '' @ pad2 (hour t) @ '':'' @ pad2 (minute t)
       @ '':'' @ pad2 (second t)"

text \<open>Reading a stored timestamp back: the digits at the fixed positions of the format.\<close>

definition digit_val :: "char \<Rightarrow> nat" where
  "digit_val c = of_char c - 48"

definition num_at :: "string \<Rightarrow> nat \<Rightarrow> nat \<Rightarrow> nat" where
  "num_at s i n = foldl (\<lambda>a c. 10 * a + digit_val c) 0 (take n (drop i s))"

definition parse_datetime :: "string \<Rightarrow> pydatetime" where
  "parse_datetime s =
     \<lparr>date_part = \<lparr>year = num_at s 0 4, month = num_at s 5 2, day = num_at s 8 2\<rparr>,
      hour = num_at s 11 2, minute = num_at s 14 2, second = num_at s 17 2\<rparr>"

text \<open>
  A stored timestamp is well formed when it is the text of a valid civil time of a
  year with four digits.
\<close>

definition wf_timestamp :: "string \<Rightarrow> bool" where
  "wf_timestamp s \<longleftrightarrow>
     valid_datetime (parse_datetime s) \<and> 1000 \<le> year (date_part (parse_datetime s)) \<and>
     strftime_datetime (parse_datetime s) = s"

subsection \<open>The table\<close>

text \<open>
  One row of \<^verbatim>\<open>audits\<close>; \<open>audit_id\<close> is the column \<^verbatim>\<open>id\<close>.
\<close>

record audit_row =
  audit_id :: nat
  pdv_number :: string
  audit_datetime :: string
  operator_name :: string
  supervisor_name :: string
  prevention_name :: string
  counted_value :: real
  expected_value :: real
  difference :: real
  tef_value :: real

text \<open>
  The database file: the rows in rowid order, and the counter SQLite keeps in
  \<^verbatim>\<open>sqlite_sequence\<close> for an \<^verbatim>\<open>AUTOINCREMENT\<close> key (the largest id ever
  handed out; deleting rows does not lower it).
\<close>

record db =
  rows :: "audit_row list"
  seq :: nat

text \<open>\<^verbatim>\<open>CREATE TABLE IF NOT EXISTS\<close>: an existing table is left alone.\<close>

definition init_db :: "db option \<Rightarrow> db" where
  "init_db file = (case file of None \<Rightarrow> \<lparr>rows = [], seq = 0\<rparr> | Some d \<Rightarrow> d)"

text \<open>
  The id of the next inserted row: one more than the largest of the counter and the
  ids present.
\<close>

definition next_id :: "db \<Rightarrow> nat" where
  "next_id d = Suc (fold max (map audit_id (rows d)) (seq d))"

text \<open>
  \<^verbatim>\<open>save_audit\<close>; \<open>now\<close> is the reading of the clock in the fixed zone. Returns
  \<^verbatim>\<open>cursor.lastrowid\<close> and the database after the commit.
\<close>

definition save_audit ::
  "string \<Rightarrow> string \<Rightarrow> string \<Rightarrow> string \<Rightarrow> real \<Rightarrow> real \<Rightarrow> real \<Rightarrow> real \<Rightarrow>
   pydatetime \<Rightarrow> db \<Rightarrow> nat \<times> db" where
  "save_audit pdv operator supervisor prevention counted expected diff tef now d =
     (let last_id = next_id d;
          row = \<lparr>audit_id = last_id, pdv_number = pdv,
                 audit_datetime = strftime_datetime now,
                 operator_name = operator, supervisor_name = supervisor,
                 prevention_name = prevention, counted_value = counted,
                 expected_value = expected, difference = diff, tef_value = tef\<rparr>
      in (last_id, \<lparr>rows = rows d @ [row], seq = last_id\<rparr>))"

text \<open>The two kinds of condition \<^verbatim>\<open>load_audits_filtered\<close> puts into its WHERE clause.\<close>

datatype condition = DatetimeGE string | DatetimeLT string

fun holds :: "condition \<Rightarrow> audit_row \<Rightarrow> bool" where
  "holds (DatetimeGE s) r \<longleftrightarrow> s \<le> audit_datetime r"
| "holds (DatetimeLT s) r \<longleftrightarrow> audit_datetime r < s"

text \<open>
  \<^verbatim>\<open>ORDER BY audit_datetime DESC\<close>. The clause names no second key; SQLite's sorter
  keeps rows with equal keys in the order of the table scan, so the sort is a stable
  insertion sort over the rows in rowid order.
\<close>

fun insert_desc :: "audit_row \<Rightarrow> audit_row list \<Rightarrow> audit_row list" where
  "insert_desc r [] = [r]"
| "insert_desc r (x # xs) =
     (if audit_datetime x \<le> audit_datetime r then r # x # xs else x # insert_desc r xs)"

definition order_by_datetime_desc :: "audit_row list \<Rightarrow> audit_row list" where
  "order_by_datetime_desc rs = foldr insert_desc rs []"

definition start_conditions :: "pydate option \<Rightarrow> condition list" where
  "start_conditions start_date =
     (case start_date of None \<Rightarrow> []
      | Some s \<Rightarrow> [DatetimeGE (strftime_date s @ '' 00:00:00'')])"

definition end_conditions :: "pydate option \<Rightarrow> error + condition list" where
  "end_conditions end_date =
     (case end_date of None \<Rightarrow> Inr []
      | Some e \<Rightarrow>
          (case add_one_day e of Inl err \<Rightarrow> Inl err
           | Inr n \<Rightarrow> Inr [DatetimeLT (strftime_date n @ '' 00:00:00'')]))"

text \<open>\<^verbatim>\<open>load_audits_filtered\<close>: the data frame is the list of its rows.\<close>

definition load_audits_filtered ::
  "pydate option \<Rightarrow> pydate option \<Rightarrow> db \<Rightarrow> error + audit_row list" where
  "load_audits_filtered start_date end_date d =
     (case end_conditions end_date of Inl err \<Rightarrow> Inl err
      | Inr cs \<Rightarrow>
          (let conditions = start_conditions start_date @ cs
           in Inr (order_by_datetime_desc
                     (filter (\<lambda>r. list_all (\<lambda>c. holds c r) conditions) (rows d)))))"

text \<open>\<^verbatim>\<open>delete_audit_by_id\<close> and \<^verbatim>\<open>delete_all_audits\<close>: the row count and the new table.\<close>

definition delete_audit_by_id :: "nat \<Rightarrow> db \<Rightarrow> nat \<times> db" where
  "delete_audit_by_id x d =
     (length (filter (\<lambda>r. audit_id r = x) (rows d)),
      d\<lparr>rows := filter (\<lambda>r. audit_id r \<noteq> x) (rows d)\<rparr>)"

definition delete_all_audits :: "db \<Rightarrow> nat \<times> db" where
  "delete_all_audits d = (length (rows d), d\<lparr>rows := []\<rparr>)"

subsection \<open>Classification of a difference\<close>

text \<open>
  \<^verbatim>\<open>highlight_difference\<close>: the loop over the column appends one style per value.
\<close>

definition STYLE_RED :: string where
  "STYLE_RED = ''background-color: #fcebeb; color: #cc0000; font-weight: bold;''"

definition STYLE_GREEN :: string where
  "STYLE_GREEN = ''background-color: #ecfced; color: #008000; font-weight: bold;''"

primrec highlight_difference :: "real list \<Rightarrow> string list" where
  "highlight_difference [] = []"
| "highlight_difference (val # s) =
     (if val < - 0.005 then STYLE_RED
      else if val > 0.005 then STYLE_GREEN
      else []) # highlight_difference s"

text \<open>
  The dictionary kept in \<^verbatim>\<open>st.session_state.audit_result\<close>, and the box the alert
  section draws from it: its title and its two colours (the amounts printed inside
  the box are left out).
\<close>

record result_dict =
  res_pdv_number :: string
  res_difference :: real
  res_counted_value :: real
  res_tef_value :: real

record alert_box =
  title :: string
  box_background :: string
  box_border :: string

definition render_alert :: "result_dict \<Rightarrow> alert_box" where
  "render_alert result =
     (let pdv = res_pdv_number result; diff = res_difference result
      in if diff < - 0.005 then
           \<lparr>title = ''QUEBRA DE CAIXA NO PDV '' @ pdv,
            box_background = ''#fcebeb'', box_border = ''#cc0000''\<rparr>
         else if diff > 0.005 then
           \<lparr>title = ''SOBRA DE CAIXA NO PDV '' @ pdv,
            box_background = ''#ecfced'', box_border = ''#008000''\<rparr>
         else
           \<lparr>title = ''CAIXA FECHADO NO PDV '' @ pdv,
            box_background = ''#e0f7ff'', box_border = ''#00bfff''\<rparr>)"





subsection \<open>Data frames and the spreadsheet\<close>

datatype cell = IntCell nat | TextCell string | NumCell real

record dataframe =
  columns :: "string list"
  data :: "cell list list"

text \<open>\<^verbatim>\<open>SELECT *\<close>: the columns in the order of \<^verbatim>\<open>CREATE TABLE\<close>.\<close>

definition TABLE_COLUMNS :: "string list" where
  "TABLE_COLUMNS =
     [''id'', ''pdv_number'', ''audit_datetime'', ''operator_name'', ''supervisor_name'',
      ''prevention_name'', ''counted_value'', ''expected_value'', ''difference'',
      ''tef_value'']"

definition row_cells :: "audit_row \<Rightarrow> cell list" where
  "row_cells r =
     [IntCell (audit_id r), TextCell (pdv_number r), TextCell (audit_datetime r),
      TextCell (operator_name r), TextCell (supervisor_name r),
      TextCell (prevention_name r), NumCell (counted_value r),
      NumCell (expected_value r), NumCell (difference r), NumCell (tef_value r)]"

definition to_frame :: "audit_row list \<Rightarrow> dataframe" where
  "to_frame rs = \<lparr>columns = TABLE_COLUMNS, data = map row_cells rs\<rparr>"

text \<open>
  \<^verbatim>\<open>df[names]\<close>: the named columns in the order asked for (every name used by the
  script is a column of the frame it is applied to; a missing name would raise
  \<^verbatim>\<open>KeyError\<close>, here \<open>None\<close>).
\<close>

fun index_of :: "string \<Rightarrow> string list \<Rightarrow> nat option" where
  "index_of n [] = None"
| "index_of n (c # cs) = (if n = c then Some 0 else map_option Suc (index_of n cs))"

fun indices_of :: "string list \<Rightarrow> string list \<Rightarrow> nat list option" where
  "indices_of [] cs = Some []"
| "indices_of (n # ns) cs =
     (case index_of n cs of None \<Rightarrow> None
      | Some i \<Rightarrow> map_option ((#) i) (indices_of ns cs))"

definition select_columns :: "string list \<Rightarrow> dataframe \<Rightarrow> dataframe option" where
  "select_columns names df =
     map_option
       (\<lambda>is. \<lparr>columns = names, data = map (\<lambda>row. map (\<lambda>i. row ! i) is) (data df)\<rparr>)
       (indices_of names (columns df))"

text \<open>\<^verbatim>\<open>df.rename(columns=mapping)\<close>: names outside the mapping stay.\<close>

definition rename_columns :: "(string \<times> string) list \<Rightarrow> dataframe \<Rightarrow> dataframe" where
  "rename_columns mapping df =
     df\<lparr>columns :=
          map (\<lambda>c. case map_of mapping c of None \<Rightarrow> c | Some c' \<Rightarrow> c') (columns df)\<rparr>"

definition DISPLAY_SELECTION :: "string list" where
  "DISPLAY_SELECTION =
     [''id'', ''pdv_number'', ''audit_datetime'', ''operator_name'', ''supervisor_name'',
      ''prevention_name'', ''counted_value'', ''tef_value'', ''difference'',
      ''expected_value'']"

text \<open>The cedilla of the last heading is its two UTF-8 bytes.\<close>

definition COL_DIFFERENCE :: string where
  "COL_DIFFERENCE = ''Diferen'' @ [CHR 0xC3, CHR 0xA7] @ ''a (Dinheiro - TEF)''"

definition DISPLAY_NAMES :: "(string \<times> string) list" where
  "DISPLAY_NAMES =
     [(''id'', ''ID''), (''pdv_number'', ''PDV''), (''audit_datetime'', ''Data/Hora (BR)''),
      (''operator_name'', ''Operador(a)''), (''supervisor_name'', ''Fiscal''),
      (''prevention_name'', ''Auditor''), (''counted_value'', ''Dinheiro Contado (R$)''),
      (''tef_value'', ''TEF Contado (R$)''), (''expected_value'', ''Valor Esperado (R$)''),
      (''difference'', COL_DIFFERENCE)]"

definition cols_to_display :: "string list" where
  "cols_to_display =
     [''ID'', ''Data/Hora (BR)'', ''PDV'', ''Operador(a)'', ''Fiscal'', ''Auditor'',
      ''Dinheiro Contado (R$)'', ''TEF Contado (R$)'', COL_DIFFERENCE]"

text \<open>\<^verbatim>\<open>df_display\<close> and \<^verbatim>\<open>df_display_clean\<close> of the history section.\<close>

definition df_display :: "dataframe \<Rightarrow> dataframe option" where
  "df_display df_audits =
     map_option (rename_columns DISPLAY_NAMES) (select_columns DISPLAY_SELECTION df_audits)"

definition df_display_clean :: "dataframe \<Rightarrow> dataframe option" where
  "df_display_clean df_audits =
     (case df_display df_audits of None \<Rightarrow> None
      | Some d \<Rightarrow> select_columns cols_to_display d)"

text \<open>
  \<^verbatim>\<open>convert_df_to_excel\<close>: one sheet named \<^verbatim>\<open>Auditorias\<close>, the column names as
  the heading row, the cells as they are, no index column. The workbook is embedded
  as the list of its sheets, not as the bytes of the file.
\<close>

record sheet =
  sheet_name :: string
  heading :: "string list"
  body :: "cell list list"

definition convert_df_to_excel :: "dataframe \<Rightarrow> sheet list" where
  "convert_df_to_excel df =
     [\<lparr>sheet_name = ''Auditorias'', heading = columns df, body = data df\<rparr>]"

subsection \<open>The script\<close>

text \<open>
  Streamlit runs \<^verbatim>\<open>app_main\<close> from top to bottom once per interaction. The inputs of
  a run are the values of the keyed widgets and the one button pressed, if any; the
  state that survives a run is \<^verbatim>\<open>st.session_state\<close> and the database file.
\<close>

record widgets =
  pdv_select :: string
  operator_select :: string
  supervisor_select :: string
  prevention_select :: string
  counted_input :: real
  tef_input :: real
  start_date :: pydate
  end_date :: pydate
  input_delete_id :: nat
  admin_password :: string

datatype button = NoButton | RegisterAudit | DeleteSelectedId | DeleteAllAudits

record app_state =
  last_audit_id :: nat
  audit_result :: "result_dict option"
  database :: db

text \<open>\<open>init_state\<close>: the two defaults set at the top of the module, on the file found.\<close>

definition init_state :: "db option \<Rightarrow> app_state" where
  "init_state file = \<lparr>last_audit_id = 0, audit_result = None, database = init_db file\<rparr>"

text \<open>What a run puts on the page, one constructor per message or element.\<close>

datatype notice =
    Alert alert_box
  | SelectAllResponsibles
  | SaveFailed
  | HistoryTable dataframe "string list"
  | DownloadButton "sheet list"
  | NoAuditsInPeriod
  | CurrentIds nat nat
  | NothingToDelete
  | DeletedId nat
  | IdNotFound nat
  | IdNotInHistory nat
  | DeletedAll nat
  | WrongPassword
  | Uncaught error

text \<open>Lines 192 to 231: show the pending result, then clear the slot.\<close>

definition alert_section :: "app_state \<Rightarrow> notice list \<times> app_state" where
  "alert_section st =
     (case audit_result st of
        None \<Rightarrow> ([], st)
      | Some result \<Rightarrow> ([Alert (render_alert result)], st\<lparr>audit_result := None\<rparr>))"

text \<open>
  Lines 294 to 330, the submit branch of the audit form. \<open>fault\<close> stands for
  \<^verbatim>\<open>save_audit\<close> raising inside the \<^verbatim>\<open>try\<close>; the third component says that
  \<^verbatim>\<open>st.rerun()\<close> was called, which ends the run.
\<close>

definition audit_form ::
  "button \<Rightarrow> widgets \<Rightarrow> pydatetime \<Rightarrow> bool \<Rightarrow> app_state \<Rightarrow> notice list \<times> app_state \<times> bool"
where
  "audit_form pressed w now fault st =
     (if pressed = RegisterAudit then
        if operator_select w = PLACEHOLDER \<or> supervisor_select w = PLACEHOLDER
           \<or> prevention_select w = PLACEHOLDER
        then ([SelectAllResponsibles], st, False)
        else
          let diff = counted_input w - tef_input w;
              expected = 0
          in if fault then ([SaveFailed], st, False)
             else
               let (new_id, d) =
                     save_audit (pdv_select w) (operator_select w) (supervisor_select w)
                       (prevention_select w) (counted_input w) expected diff (tef_input w)
                       now (database st)
               in ([],
                   st\<lparr>last_audit_id := new_id,
                      audit_result :=
                        Some \<lparr>res_pdv_number = pdv_select w, res_difference = diff,
                              res_counted_value = counted_input w,
                              res_tef_value = tef_input w\<rparr>,
                      database := d\<rparr>,
                   True)
      else ([], st, False))"

text \<open>
  Lines 349 to 401: the styled table and the download, or the empty notice. The table
  carries the nine displayed columns and the styles of its difference column
  (the currency text of the cells on screen is left out); the download is made from
  \<^verbatim>\<open>df_display\<close>.
\<close>

definition history_section :: "audit_row list \<Rightarrow> error + notice list" where
  "history_section df_audits =
     (if df_audits \<noteq> [] then
        (case (df_display_clean (to_frame df_audits), df_display (to_frame df_audits)) of
           (Some clean, Some full) \<Rightarrow>
             Inr [HistoryTable clean (highlight_difference (map difference df_audits)),
                  DownloadButton (convert_df_to_excel full)]
         | _ \<Rightarrow> Inl KeyError)
      else Inr [NoAuditsInPeriod])"

text \<open>Lines 411 to 446: delete by id, offered only for ids of the loaded history.\<close>

definition delete_id_form ::
  "button \<Rightarrow> widgets \<Rightarrow> audit_row list \<Rightarrow> app_state \<Rightarrow> notice list \<times> app_state \<times> bool"
where
  "delete_id_form pressed w df_audits st =
     (let info =
            (case df_audits of [] \<Rightarrow> []
             | r # rs \<Rightarrow>
                 [CurrentIds (fold min (map audit_id rs) (audit_id r))
                             (fold max (map audit_id rs) (audit_id r))]);
          delete_id = input_delete_id w
      in if pressed = DeleteSelectedId then
           if df_audits = [] then (info @ [NothingToDelete], st, False)
           else if delete_id \<in> set (map audit_id df_audits) then
             let (deleted_count, d) = delete_audit_by_id delete_id (database st)
             in if deleted_count > 0
                then (info @ [DeletedId delete_id], st\<lparr>database := d\<rparr>, True)
                else (info @ [IdNotFound delete_id], st\<lparr>database := d\<rparr>, False)
           else (info @ [IdNotInHistory delete_id], st, False)
         else (info, st, False))"

text \<open>Lines 464 to 471: delete everything, behind the password.\<close>

definition delete_all_form ::
  "button \<Rightarrow> widgets \<Rightarrow> app_state \<Rightarrow> notice list \<times> app_state \<times> bool" where
  "delete_all_form pressed w st =
     (if pressed = DeleteAllAudits then
        if admin_password w = ADMIN_PASSWORD then
          let (deleted_count, d) = delete_all_audits (database st)
          in ([DeletedAll deleted_count], st\<lparr>last_audit_id := 0, database := d\<rparr>, True)
        else ([WrongPassword], st, False)
      else ([], st, False))"

text \<open>
  One run of the script: the sections in order; a rerun request or an uncaught
  exception ends the run where it happens.
\<close>

definition script_run ::
  "button \<Rightarrow> widgets \<Rightarrow> pydatetime \<Rightarrow> bool \<Rightarrow> app_state \<Rightarrow> notice list \<times> app_state \<times> bool"
where
  "script_run pressed w now fault st =
     (let (n1, st1) = alert_section st;
          (n2, st2, rerun2) = audit_form pressed w now fault st1
      in if rerun2 then (n1 @ n2, st2, True)
         else
           (case load_audits_filtered (Some (start_date w)) (Some (end_date w))
                   (database st2) of
              Inl e \<Rightarrow> (n1 @ n2 @ [Uncaught e], st2, False)
            | Inr df_audits \<Rightarrow>
                (case history_section df_audits of
                   Inl e \<Rightarrow> (n1 @ n2 @ [Uncaught e], st2, False)
                 | Inr n3 \<Rightarrow>
                     (let (n4, st4, rerun4) = delete_id_form pressed w df_audits st2
                      in if rerun4 then (n1 @ n2 @ n3 @ n4, st4, True)
                         else
                           (let (n5, st5, rerun5) = delete_all_form pressed w st4
                            in (n1 @ n2 @ n3 @ n4 @ n5, st5, rerun5))))))"

text \<open>
  One interaction: the run it triggers and, when that run asks for a rerun, the run
  that follows with no button pressed. The result lists the pages drawn, in order.
\<close>

definition app_main ::
  "button \<Rightarrow> widgets \<Rightarrow> pydatetime \<Rightarrow> bool \<Rightarrow> app_state \<Rightarrow> notice list list \<times> app_state"
where
  "app_main pressed w now fault st =
     (let (page1, st1, rerun1) = script_run pressed w now fault st
      in if rerun1 then
           (let (page2, st2, rerun2) = script_run NoButton w now False st1
            in ([page1, page2], st2))
         else ([page1], st1))"

subsection \<open>Vocabulary of the properties\<close>

text \<open>
  The closed interval of the query filter, from the first second of the start day to
  the last second of the end day, on civil times.
\<close>

definition in_interval :: "pydate \<Rightarrow> pydate \<Rightarrow> pydatetime \<Rightarrow> bool" where
  "in_interval lo hi t \<longleftrightarrow>
     datetime_key (at_time lo 0 0 0) \<le> datetime_key t \<and>
     datetime_key t \<le> datetime_key (at_time hi 23 59 59)"

text \<open>Dates and civil times of the years 1000 to 9999, whose year has four digits.\<close>

definition four_digit_date :: "pydate \<Rightarrow> bool" where
  "four_digit_date d \<longleftrightarrow> valid_date d \<and> 1000 \<le> year d"

definition four_digit_time :: "pydatetime \<Rightarrow> bool" where
  "four_digit_time t \<longleftrightarrow> valid_datetime t \<and> 1000 \<le> year (date_part t)"

text \<open>The civil time a row was written at.\<close>

definition row_time :: "audit_row \<Rightarrow> pydatetime" where
  "row_time r = parse_datetime (audit_datetime r)"

text \<open>
  Filters made of dates that exist, with an end date that has a following day.
\<close>

definition filter_ok :: "pydate option \<Rightarrow> pydate option \<Rightarrow> bool" where
  "filter_ok lo hi \<longleftrightarrow>
     (case lo of None \<Rightarrow> True | Some x \<Rightarrow> valid_date x) \<and>
     (case hi of None \<Rightarrow> True | Some x \<Rightarrow> valid_date x \<and> x \<noteq> date_max)"

text \<open>
  What every table written through \<^verbatim>\<open>save_audit\<close> satisfies: the timestamps are
  texts of civil times, and the ids grow along the table.
\<close>

definition wf_db :: "db \<Rightarrow> bool" where
  "wf_db d \<longleftrightarrow>
     list_all (\<lambda>r. wf_timestamp (audit_datetime r)) (rows d) \<and>
     sorted_wrt (<) (map audit_id (rows d))"

text \<open>Descending order of the timestamp column.\<close>

definition datetime_desc :: "audit_row list \<Rightarrow> bool" where
  "datetime_desc rs = sorted_wrt (\<lambda>a b. audit_datetime b \<le> audit_datetime a) rs"

text \<open>
  The stored difference of every row is its counted value minus its TEF value.
\<close>

definition diff_inv :: "db \<Rightarrow> bool" where
  "diff_inv d = list_all (\<lambda>r. difference r = counted_value r - tef_value r) (rows d)"

text \<open>
  A run creates an audit when the register button was pressed, the three people are
  chosen and the database write goes through.
\<close>

definition create_accepted :: "button \<Rightarrow> widgets \<Rightarrow> bool \<Rightarrow> bool" where
  "create_accepted pressed w fault \<longleftrightarrow>
     pressed = RegisterAudit \<and> operator_select w \<noteq> PLACEHOLDER \<and>
     supervisor_select w \<noteq> PLACEHOLDER \<and> prevention_select w \<noteq> PLACEHOLDER \<and> \<not> fault"

text \<open>The result such a run publishes, and the row it writes.\<close>

definition published :: "widgets \<Rightarrow> result_dict" where
  "published w =
     \<lparr>res_pdv_number = pdv_select w, res_difference = counted_input w - tef_input w,
      res_counted_value = counted_input w, res_tef_value = tef_input w\<rparr>"

definition created_row :: "widgets \<Rightarrow> pydatetime \<Rightarrow> db \<Rightarrow> audit_row" where
  "created_row w now d =
     \<lparr>audit_id = next_id d, pdv_number = pdv_select w,
      audit_datetime = strftime_datetime now, operator_name = operator_select w,
      supervisor_name = supervisor_select w, prevention_name = prevention_select w,
      counted_value = counted_input w, expected_value = 0,
      difference = counted_input w - tef_input w, tef_value = tef_input w\<rparr>"

text \<open>The alert boxes among the elements of a page.\<close>

fun alerts_of :: "notice list \<Rightarrow> alert_box list" where
  "alerts_of [] = []"
| "alerts_of (Alert b # ns) = b # alerts_of ns"
| "alerts_of (n # ns) = alerts_of ns"

subsection \<open>Sample data\<close>

text \<open>
  Three audits of terminal 5, two of them written in the same second, used where a
  property is evaluated on a concrete table.
\<close>

definition sample_row :: "nat \<Rightarrow> string \<Rightarrow> real \<Rightarrow> real \<Rightarrow> audit_row" where
  "sample_row i ts counted tef =
     \<lparr>audit_id = i, pdv_number = ''5'', audit_datetime = ts, operator_name = ''A'',
      supervisor_name = ''B'', prevention_name = ''C'', counted_value = counted,
      expected_value = 0, difference = counted - tef, tef_value = tef\<rparr>"

definition sample_db :: db where
  "sample_db =
     \<lparr>rows = [sample_row 1 ''2024-01-01 10:00:00'' 100 120,
              sample_row 2 ''2024-01-01 10:00:00'' 50 50,
              sample_row 3 ''2024-01-02 08:30:00'' 70 60],
      seq = 3\<rparr>"

definition sample_widgets :: widgets where
  "sample_widgets =
     \<lparr>pdv_select = ''5'', operator_select = ''A'', supervisor_select = ''B'',
      prevention_select = ''C'', counted_input = 100, tef_input = 120,
      start_date = \<lparr>year = 2024, month = 1, day = 1\<rparr>,
      end_date = \<lparr>year = 2024, month = 1, day = 31\<rparr>,
      input_delete_id = 2, admin_password = ''123456''\<rparr>"

definition sample_now :: pydatetime where
  "sample_now =
     \<lparr>date_part = \<lparr>year = 2024, month = 1, day = 3\<rparr>, hour = 9, minute = 15, second = 0\<rparr>"

definition sample_state :: app_state where
  "sample_state = \<lparr>last_audit_id = 3, audit_result = None, database = sample_db\<rparr>"

definition jan_1 :: pydate where
  "jan_1 = \<lparr>year = 2024, month = 1, day = 1\<rparr>"

definition jan_2 :: pydate where
  "jan_2 = \<lparr>year = 2024, month = 1, day = 2\<rparr>"

definition jan_31 :: pydate where
  "jan_31 = \<lparr>year = 2024, month = 1, day = 31\<rparr>"

text \<open>Two dates of years with three digits.\<close>

definition jan_1_998 :: pydate where
  "jan_1_998 = \<lparr>year = 998, month = 1, day = 1\<rparr>"

definition jan_1_999 :: pydate where
  "jan_1_999 = \<lparr>year = 999, month = 1, day = 1\<rparr>"

section \<open>Properties\<close>

subsection \<open>Classification\<close>



subsection \<open>Saving an audit\<close>

text \<open>
  C10. Whatever its arguments are, \<^verbatim>\<open>save_audit\<close> appends one row that holds
  exactly the values passed, under the next id and the clock's text; nothing is
  checked and the difference is not recomputed, so the stored difference is the
  counted value minus the TEF value exactly when the caller passed it so.
\<close>

theorem save_audit_stores_arguments:
  "save_audit pdv operator supervisor prevention counted expected diff tef now d =
     (next_id d,
      \<lparr>rows = rows d @
          [\<lparr>audit_id = next_id d, pdv_number = pdv, audit_datetime = strftime_datetime now,
            operator_name = operator, supervisor_name = supervisor,
            prevention_name = prevention, counted_value = counted,
            expected_value = expected, difference = diff, tef_value = tef\<rparr>],
       seq = next_id d\<rparr>) \<and>
   (let r = last (rows (snd (save_audit pdv operator supervisor prevention counted
                               expected diff tef now d)))
    in (difference r = counted_value r - tef_value r) = (diff = counted - tef))"
  by (simp add: save_audit_def Let_def)

subsection \<open>The text order of civil times\<close>

lemma div_less_imp_less:
  fixes a b k :: nat
  assumes "a div k < b div k"
  shows "a < b"
proof (rule ccontr)
  assume "\<not> a < b"
  then have "b \<le> a" by simp
  then have "b div k \<le> a div k" by (rule div_le_mono)
  with assms show False by simp
qed

lemma divmod_lex:
  fixes a b k :: nat
  shows "a < b \<longleftrightarrow> a div k < b div k \<or> a div k = b div k \<and> a mod k < b mod k"
proof (cases "a div k" "b div k" rule: linorder_cases)
  case less
  moreover from less have "a < b" by (rule div_less_imp_less)
  ultimately show ?thesis by simp
next
  case equal
  have "a < b \<longleftrightarrow> k * (a div k) + a mod k < k * (b div k) + b mod k" by simp
  also have "\<dots> \<longleftrightarrow> a mod k < b mod k"
    by (simp only: equal nat_add_left_cancel_less)
  finally show ?thesis using equal by simp
next
  case greater
  then have "b < a" by (rule div_less_imp_less)
  with greater show ?thesis by simp
qed


lemma of_char_digit_char: "n < 10 \<Longrightarrow> of_char (digit_char n) = 48 + n"
  by (simp add: digit_char_def)

lemma digit_char_less_iff:
  "m < 10 \<Longrightarrow> n < 10 \<Longrightarrow> digit_char m < digit_char n \<longleftrightarrow> m < n"
  by (simp add: less_char_def of_char_digit_char)

lemma digit_char_eq_iff:
  "m < 10 \<Longrightarrow> n < 10 \<Longrightarrow> digit_char m = digit_char n \<longleftrightarrow> m = n"
proof
  assume a: "m < 10" "n < 10" and e: "digit_char m = digit_char n"
  then have "(of_char (digit_char m) :: nat) = of_char (digit_char n)" by simp
  with a show "m = n" by (simp add: of_char_digit_char)
qed simp

lemma digit_val_digit_char: "n < 10 \<Longrightarrow> digit_val (digit_char n) = n"
  by (simp add: digit_val_def of_char_digit_char)

lemma lex_append_less:
  "length xs = length ys \<Longrightarrow> xs @ us < ys @ vs \<longleftrightarrow> xs < ys \<or> xs = ys \<and> us < vs"
  by (induction xs ys rule: list_induct2) auto

lemma divmod_eq:
  fixes a b k :: nat
  shows "a = b \<longleftrightarrow> a div k = b div k \<and> a mod k = b mod k"
proof
  assume "a div k = b div k \<and> a mod k = b mod k"
  then have "k * (a div k) + a mod k = k * (b div k) + b mod k" by simp
  then show "a = b" by simp
qed simp

lemma length_pad2 [simp]: "length (pad2 n) = 2"
  by (simp add: pad2_def)

lemma length_pad4 [simp]: "length (pad4 n) = 4"
  by (simp add: pad4_def)

lemma pad2_less_iff:
  assumes "a < 100" "b < 100"
  shows "pad2 a < pad2 b \<longleftrightarrow> a < b"
proof -
  from assms have "a div 10 < 10" "b div 10 < 10" by simp_all
  then have "pad2 a < pad2 b \<longleftrightarrow>
      a div 10 < b div 10 \<or> a div 10 = b div 10 \<and> a mod 10 < b mod 10"
    by (simp add: pad2_def digit_char_less_iff digit_char_eq_iff)
  then show ?thesis by (simp only: divmod_lex [of a b 10])
qed

lemma pad2_eq_iff:
  assumes "a < 100" "b < 100"
  shows "pad2 a = pad2 b \<longleftrightarrow> a = b"
proof -
  from assms have "a div 10 < 10" "b div 10 < 10" by simp_all
  then have "pad2 a = pad2 b \<longleftrightarrow> a div 10 = b div 10 \<and> a mod 10 = b mod 10"
    by (simp add: pad2_def digit_char_eq_iff)
  then show ?thesis by (simp only: divmod_eq [of a b 10])
qed

lemma pad4_split: "pad4 n = pad2 (n div 100) @ pad2 (n mod 100)"
proof -
  have "n div 100 div 10 = n div 1000" by (simp add: div_mult2_eq [symmetric])
  moreover have "n mod 100 div 10 mod 10 = n div 10 mod 10"
  proof -
    have "n mod 100 = 10 * (n div 10 mod 10) + n mod 10"
      using mod_mult2_eq [of n 10 10] by simp
    then have "n mod 100 div 10 = n div 10 mod 10" by simp
    then show ?thesis by simp
  qed
  moreover have "n mod 100 mod 10 = n mod 10" by (simp add: mod_mod_cancel)
  ultimately show ?thesis by (simp add: pad4_def pad2_def)
qed


lemma pad4_less_iff:
  assumes "a < 10000" "b < 10000"
  shows "pad4 a < pad4 b \<longleftrightarrow> a < b"
proof -
  from assms have "a div 100 < 100" "b div 100 < 100" by simp_all
  then have "pad4 a < pad4 b \<longleftrightarrow>
      a div 100 < b div 100 \<or> a div 100 = b div 100 \<and> a mod 100 < b mod 100"
    by (simp add: pad4_split lex_append_less pad2_less_iff pad2_eq_iff)
  then show ?thesis by (simp only: divmod_lex [of a b 100])
qed

lemma pad4_eq_iff:
  assumes "a < 10000" "b < 10000"
  shows "pad4 a = pad4 b \<longleftrightarrow> a = b"
proof -
  from assms have "a div 100 < 100" "b div 100 < 100" by simp_all
  then have "pad4 a = pad4 b \<longleftrightarrow> a div 100 = b div 100 \<and> a mod 100 = b mod 100"
    by (simp add: pad4_split pad2_eq_iff)
  then show ?thesis by (simp only: divmod_eq [of a b 100])
qed

lemma days_in_month_le: "days_in_month y m \<le> 31"
  by (simp add: days_in_month_def)

lemma valid_date_bounds:
  assumes "valid_date d"
  shows "year d < 10000" "month d < 100" "day d < 100"
proof -
  from assms have "day d \<le> days_in_month (year d) (month d)"
    by (simp add: valid_date_def)
  with days_in_month_le [of "year d" "month d"] show "day d < 100" by simp
  from assms show "year d < 10000" "month d < 100" by (simp_all add: valid_date_def)
qed

lemma decimal_four_digits:
  assumes "1000 \<le> y" "y < 10000"
  shows "decimal y = pad4 y"
proof -
  have a: "y div 10 div 10 = y div 100" "y div 100 div 10 = y div 1000"
    by (simp_all add: div_mult2_eq [symmetric])
  from assms have b: "\<not> y < 10" "\<not> y div 10 < 10" "\<not> y div 100 < 10" "y div 1000 < 10"
    by simp_all
  have "decimal (y div 1000) = [digit_char (y div 1000)]"
    using b(4) by (subst decimal.simps) simp
  then have "decimal (y div 100) = [digit_char (y div 1000), digit_char (y div 100 mod 10)]"
    using b(3) by (subst decimal.simps) (simp add: a)
  then have "decimal (y div 10) =
      [digit_char (y div 1000), digit_char (y div 100 mod 10), digit_char (y div 10 mod 10)]"
    using b(2) by (subst decimal.simps) (simp add: a)
  then have "decimal y =
      [digit_char (y div 1000), digit_char (y div 100 mod 10), digit_char (y div 10 mod 10),
       digit_char (y mod 10)]"
    using b(1) by (subst decimal.simps) simp
  moreover from b(4) have "y div 1000 mod 10 = y div 1000" by simp
  ultimately show ?thesis by (simp add: pad4_def)
qed

lemma four_digit_dateD:
  assumes "four_digit_date d"
  shows "valid_date d" "1000 \<le> year d"
  using assms by (simp_all add: four_digit_date_def)

lemma four_digit_timeD:
  assumes "four_digit_time t"
  shows "valid_datetime t" "four_digit_date (date_part t)"
  using assms by (simp_all add: four_digit_time_def four_digit_date_def valid_datetime_def)

lemma strftime_date_four_digit:
  assumes "four_digit_date d"
  shows "strftime_date d = pad4 (year d) @ ''-'' @ pad2 (month d) @ ''-'' @ pad2 (day d)"
proof -
  note v = four_digit_dateD [OF assms]
  from decimal_four_digits [OF v(2) valid_date_bounds(1) [OF v(1)]] show ?thesis
    by (simp add: strftime_date_def)
qed

lemma length_strftime_date: "four_digit_date d \<Longrightarrow> length (strftime_date d) = 10"
  by (simp add: strftime_date_four_digit)

lemma strftime_date_less_iff:
  assumes "four_digit_date d" "four_digit_date e"
  shows "strftime_date d < strftime_date e \<longleftrightarrow> date_key d < date_key e"
  using valid_date_bounds [OF four_digit_dateD(1) [OF assms(1)]]
    valid_date_bounds [OF four_digit_dateD(1) [OF assms(2)]]
  by (auto simp add: strftime_date_four_digit [OF assms(1)]
        strftime_date_four_digit [OF assms(2)] date_key_def lex_append_less
        pad4_less_iff pad4_eq_iff pad2_less_iff pad2_eq_iff)

lemma strftime_date_eq_iff:
  assumes "four_digit_date d" "four_digit_date e"
  shows "strftime_date d = strftime_date e \<longleftrightarrow> date_key d = date_key e"
  using valid_date_bounds [OF four_digit_dateD(1) [OF assms(1)]]
    valid_date_bounds [OF four_digit_dateD(1) [OF assms(2)]]
  by (auto simp add: strftime_date_four_digit [OF assms(1)]
        strftime_date_four_digit [OF assms(2)] date_key_def pad4_eq_iff pad2_eq_iff)


lemma strftime_datetime_less_iff:
  assumes "four_digit_time t" "four_digit_time u"
  shows "strftime_datetime t < strftime_datetime u \<longleftrightarrow> datetime_key t < datetime_key u"
proof -
  from assms have v: "four_digit_date (date_part t)" "four_digit_date (date_part u)"
    and b: "hour t < 100" "minute t < 100" "second t < 100"
           "hour u < 100" "minute u < 100" "second u < 100"
    by (simp_all add: four_digit_time_def four_digit_date_def valid_datetime_def)
  show ?thesis
    unfolding strftime_datetime_def datetime_key_def
    using b
    by (auto simp add: lex_append_less length_strftime_date [OF v(1)]
          length_strftime_date [OF v(2)] strftime_date_less_iff [OF v]
          strftime_date_eq_iff [OF v] pad2_less_iff pad2_eq_iff)
qed

lemma strftime_datetime_eq_iff:
  assumes "four_digit_time t" "four_digit_time u"
  shows "strftime_datetime t = strftime_datetime u \<longleftrightarrow> datetime_key t = datetime_key u"
proof -
  from assms have v: "four_digit_date (date_part t)" "four_digit_date (date_part u)"
    and b: "hour t < 100" "minute t < 100" "second t < 100"
           "hour u < 100" "minute u < 100" "second u < 100"
    by (simp_all add: four_digit_time_def four_digit_date_def valid_datetime_def)
  show ?thesis
    unfolding strftime_datetime_def datetime_key_def
    using b
    by (auto simp add: length_strftime_date [OF v(1)] length_strftime_date [OF v(2)]
          strftime_date_eq_iff [OF v] pad2_eq_iff)
qed

lemma strftime_datetime_le_iff:
  assumes "four_digit_time t" "four_digit_time u"
  shows "strftime_datetime t \<le> strftime_datetime u \<longleftrightarrow> datetime_key t \<le> datetime_key u"
  by (simp add: le_less strftime_datetime_less_iff [OF assms] strftime_datetime_eq_iff [OF assms])

lemma digit_char_0: "digit_char 0 = CHR ''0''"
  by code_simp

lemma midnight_text: "strftime_date d @ '' 00:00:00'' = strftime_datetime (at_time d 0 0 0)"
  by (simp add: strftime_datetime_def at_time_def pad2_def digit_char_0)

lemma four_digit_at_time:
  "four_digit_date d \<Longrightarrow> h < 24 \<Longrightarrow> m < 60 \<Longrightarrow> s < 60 \<Longrightarrow> four_digit_time (at_time d h m s)"
  by (simp add: four_digit_time_def four_digit_date_def valid_datetime_def at_time_def)

lemma add_one_day_valid:
  assumes "valid_date e" "add_one_day e = Inr n"
  shows "valid_date n"
  using assms
  by (auto simp add: add_one_day_def valid_date_def days_in_month_def split: if_splits)

lemma add_one_day_four_digit:
  assumes "four_digit_date e" "add_one_day e = Inr n"
  shows "four_digit_date n"
proof -
  note v = four_digit_dateD [OF assms(1)]
  have "year e \<le> year n"
    using assms(2) by (auto simp add: add_one_day_def split: if_splits)
  with v(2) add_one_day_valid [OF v(1) assms(2)] show ?thesis
    by (simp add: four_digit_date_def)
qed

lemma add_one_day_succ:
  assumes d: "valid_date d" and e: "valid_date e" and n: "add_one_day e = Inr n"
  shows "date_key d < date_key n \<longleftrightarrow> date_key d \<le> date_key e"
proof -
  from d have d1: "1 \<le> day d" "day d \<le> days_in_month (year d) (month d)"
      "1 \<le> month d" "month d \<le> 12"
    by (simp_all add: valid_date_def)
  from e have e1: "day e \<le> days_in_month (year e) (month e)" "month e \<le> 12"
    by (simp_all add: valid_date_def)
  consider
      (next_day) "day e < days_in_month (year e) (month e)" "n = e\<lparr>day := day e + 1\<rparr>"
    | (next_month) "day e = days_in_month (year e) (month e)" "month e < 12"
        "n = e\<lparr>month := month e + 1, day := 1\<rparr>"
    | (next_year) "day e = days_in_month (year e) (month e)" "month e = 12"
        "n = \<lparr>year = year e + 1, month = 1, day = 1\<rparr>"
    using n e1 by (auto simp add: add_one_day_def split: if_splits)
  then show ?thesis
  proof cases
    case next_day
    then show ?thesis by (auto simp add: date_key_def)
  next
    case next_month
    show ?thesis
    proof (cases "year d = year e \<and> month d = month e")
      case True
      with d1 next_month show ?thesis by (simp add: date_key_def)
    next
      case False
      with d1 next_month show ?thesis by (auto simp add: date_key_def)
    qed
  next
    case next_year
    show ?thesis
    proof (cases "year d = year e \<and> month d = month e")
      case True
      with d1 next_year show ?thesis by (simp add: date_key_def)
    next
      case False
      with d1 e1 next_year show ?thesis by (auto simp add: date_key_def)
    qed
  qed
qed


lemma add_one_day_defined:
  assumes "valid_date e" "e \<noteq> date_max"
  shows "\<exists>n. add_one_day e = Inr n"
proof (cases "add_one_day e")
  case (Inl err)
  then have "day e \<ge> days_in_month (year e) (month e)" "month e \<ge> 12" "year e \<ge> 9999"
    by (auto simp add: add_one_day_def split: if_splits)
  with assms(1) have "year e = 9999" "month e = 12" "day e = 31"
    by (auto simp add: valid_date_def days_in_month_def)
  then have "e = date_max" by (simp add: date_max_def)
  with assms(2) show ?thesis by simp
next
  case (Inr n)
  then show ?thesis by blast
qed

lemma date_part_at_time: "date_part (at_time d h m s) = d"
  by (simp add: at_time_def)

lemma datetime_key_midnight_le:
  "datetime_key (at_time lo 0 0 0) \<le> datetime_key t \<longleftrightarrow> date_key lo \<le> date_key (date_part t)"
  by (auto simp add: datetime_key_def at_time_def)

lemma datetime_key_less_midnight:
  "datetime_key t < datetime_key (at_time n 0 0 0) \<longleftrightarrow> date_key (date_part t) < date_key n"
  by (auto simp add: datetime_key_def at_time_def)

lemma datetime_key_le_last_second:
  assumes "valid_datetime t"
  shows "datetime_key t \<le> datetime_key (at_time hi 23 59 59) \<longleftrightarrow>
         date_key (date_part t) \<le> date_key hi"
  using assms by (auto simp add: datetime_key_def at_time_def valid_datetime_def)

subsection \<open>Evaluation on concrete data\<close>

lemma digit_char_simps:
  "digit_char 0 = CHR ''0''" "digit_char 1 = CHR ''1''" "digit_char 2 = CHR ''2''"
  "digit_char 3 = CHR ''3''" "digit_char 4 = CHR ''4''" "digit_char 5 = CHR ''5''"
  "digit_char 6 = CHR ''6''" "digit_char 7 = CHR ''7''" "digit_char 8 = CHR ''8''"
  "digit_char 9 = CHR ''9''"
  "digit_char (Suc 0) = CHR ''1''" "digit_char (Suc (Suc 0)) = CHR ''2''"
  by code_simp+

lemma decimal_samples:
  "decimal 998 = ''998''" "decimal 999 = ''999''" "decimal 2024 = ''2024''"
  by (simp_all add: decimal.simps digit_char_simps)

lemmas date_eval =
  jan_1_def jan_2_def jan_31_def jan_1_998_def jan_1_999_def date_max_def add_one_day_def
  days_in_month_def is_leap_def strftime_date_def strftime_datetime_def decimal_samples
  pad4_def pad2_def digit_char_simps
  valid_date_def valid_datetime_def date_key_def datetime_key_def at_time_def
  parse_datetime_def num_at_def digit_val_def wf_timestamp_def row_time_def

lemmas query_eval =
  sample_db_def sample_row_def load_audits_filtered_def start_conditions_def
  end_conditions_def order_by_datetime_desc_def Let_def

lemma sample_db_timestamps:
  "list_all (\<lambda>r. wf_timestamp (audit_datetime r)) (rows sample_db)"
  by (simp add: query_eval date_eval)

lemma sample_db_ids: "sorted_wrt (<) (map audit_id (rows sample_db))"
  by (simp add: query_eval)

subsection \<open>The date filter\<close>

lemma set_insert_desc [simp]: "set (insert_desc r xs) = insert r (set xs)"
  by (induction xs) auto

lemma set_order_by_datetime_desc [simp]: "set (order_by_datetime_desc rs) = set rs"
  by (induction rs) (simp_all add: order_by_datetime_desc_def)

lemma order_by_datetime_desc_Nil [simp]: "order_by_datetime_desc [] = []"
  by (simp add: order_by_datetime_desc_def)

lemma wf_timestampD:
  assumes "wf_timestamp s"
  shows "four_digit_time (parse_datetime s)" "strftime_datetime (parse_datetime s) = s"
  using assms by (simp_all add: wf_timestamp_def four_digit_time_def)

lemma lower_bound_iff:
  assumes "four_digit_date lo" "wf_timestamp s"
  shows "strftime_date lo @ '' 00:00:00'' \<le> s \<longleftrightarrow>
         datetime_key (at_time lo 0 0 0) \<le> datetime_key (parse_datetime s)"
proof -
  note v = wf_timestampD(1) [OF assms(2)] and s = wf_timestampD(2) [OF assms(2)]
  have "four_digit_time (at_time lo 0 0 0)" using assms(1) by (simp add: four_digit_at_time)
  from strftime_datetime_le_iff [OF this v] show ?thesis
    by (simp add: midnight_text s)
qed

lemma upper_bound_iff:
  assumes "four_digit_date n" "wf_timestamp s"
  shows "s < strftime_date n @ '' 00:00:00'' \<longleftrightarrow>
         datetime_key (parse_datetime s) < datetime_key (at_time n 0 0 0)"
proof -
  note v = wf_timestampD(1) [OF assms(2)] and s = wf_timestampD(2) [OF assms(2)]
  have "four_digit_time (at_time n 0 0 0)" using assms(1) by (simp add: four_digit_at_time)
  from strftime_datetime_less_iff [OF v this] show ?thesis
    by (simp add: midnight_text s)
qed

lemma window_iff:
  assumes lo: "four_digit_date lo" and hi: "four_digit_date hi"
    and n: "add_one_day hi = Inr n" and s: "wf_timestamp (audit_datetime r)"
  shows "list_all (\<lambda>c. holds c r)
           [DatetimeGE (strftime_date lo @ '' 00:00:00''),
            DatetimeLT (strftime_date n @ '' 00:00:00'')]
         \<longleftrightarrow> in_interval lo hi (row_time r)"
proof -
  from s have v: "valid_datetime (row_time r)"
    by (simp add: wf_timestamp_def row_time_def)
  then have vd: "valid_date (date_part (row_time r))" by (simp add: valid_datetime_def)
  have vh: "valid_date hi" using hi by (rule four_digit_dateD)
  have vn: "four_digit_date n" using hi n by (rule add_one_day_four_digit)
  have "audit_datetime r < strftime_date n @ '' 00:00:00'' \<longleftrightarrow>
        datetime_key (row_time r) \<le> datetime_key (at_time hi 23 59 59)"
    unfolding row_time_def upper_bound_iff [OF vn s]
    using add_one_day_succ [OF vd vh n] datetime_key_le_last_second [OF v, of hi]
    by (simp add: datetime_key_less_midnight row_time_def)
  then show ?thesis
    by (simp add: in_interval_def lower_bound_iff [OF lo s] row_time_def)
qed

lemma same_day_iff:
  assumes "valid_datetime t"
  shows "in_interval D D t \<longleftrightarrow> date_part t = D"
proof -
  have "date_key (date_part t) = date_key D \<longleftrightarrow> date_part t = D"
    by (auto simp add: date_key_def)
  with assms show ?thesis
    by (auto simp add: in_interval_def datetime_key_midnight_le datetime_key_le_last_second)
qed

text \<open>
  Where the years of the filter and of the stored timestamps have four digits and
  the end date has a following day, the text comparison of the query is the closed
  interval from the first second of the start day to the last second of the end
  day; with one day \<open>D\<close> on both sides, the rows of civil date \<open>D\<close>.
\<close>

lemma closed_interval_four_digit_years:
  assumes "list_all (\<lambda>r. wf_timestamp (audit_datetime r)) (rows d)"
    and "four_digit_date lo" and "four_digit_date hi" and "hi \<noteq> date_max"
  shows "\<exists>rs. load_audits_filtered (Some lo) (Some hi) d = Inr rs \<and>
           rs = order_by_datetime_desc (filter (\<lambda>r. in_interval lo hi (row_time r)) (rows d)) \<and>
           set rs = {r \<in> set (rows d). in_interval lo hi (row_time r)} \<and>
           (lo = hi \<longrightarrow> set rs = {r \<in> set (rows d). date_part (row_time r) = hi})"
proof -
  from four_digit_dateD(1) [OF assms(3)] assms(4) obtain n where n: "add_one_day hi = Inr n"
    using add_one_day_defined by blast
  have w: "\<And>r. r \<in> set (rows d) \<Longrightarrow> wf_timestamp (audit_datetime r)"
    using assms(1) by (simp add: list_all_iff)
  have f: "filter (\<lambda>r. list_all (\<lambda>c. holds c r)
                  [DatetimeGE (strftime_date lo @ '' 00:00:00''),
                   DatetimeLT (strftime_date n @ '' 00:00:00'')]) (rows d)
           = filter (\<lambda>r. in_interval lo hi (row_time r)) (rows d)"
    by (rule filter_cong [OF refl]) (rule window_iff [OF assms(2,3) n w])
  have l: "load_audits_filtered (Some lo) (Some hi) d =
           Inr (order_by_datetime_desc (filter (\<lambda>r. in_interval lo hi (row_time r)) (rows d)))"
    using f by (simp add: load_audits_filtered_def start_conditions_def end_conditions_def n)
  have "\<And>r. r \<in> set (rows d) \<Longrightarrow> in_interval hi hi (row_time r) \<longleftrightarrow> date_part (row_time r) = hi"
    using w by (simp add: same_day_iff wf_timestamp_def row_time_def)
  then have "{r \<in> set (rows d). in_interval hi hi (row_time r)} =
             {r \<in> set (rows d). date_part (row_time r) = hi}" by blast
  with l show ?thesis by auto
qed

lemma closed_interval_on_sample:
  "load_audits_filtered (Some jan_1) (Some jan_1) sample_db =
     Inr [sample_row 1 ''2024-01-01 10:00:00'' 100 120,
          sample_row 2 ''2024-01-01 10:00:00'' 50 50] \<and>
   set [sample_row 1 ''2024-01-01 10:00:00'' 100 120,
        sample_row 2 ''2024-01-01 10:00:00'' 50 50] =
     {r \<in> set (rows sample_db). date_part (row_time r) = jan_1}"
proof -
  have v: "four_digit_date jan_1" and m: "jan_1 \<noteq> date_max"
    by (simp_all add: four_digit_date_def date_eval)
  have l: "load_audits_filtered (Some jan_1) (Some jan_1) sample_db =
     Inr [sample_row 1 ''2024-01-01 10:00:00'' 100 120,
          sample_row 2 ''2024-01-01 10:00:00'' 50 50]"
    by (simp add: query_eval date_eval)
  from closed_interval_four_digit_years [OF sample_db_timestamps v v m] obtain rs where
    "load_audits_filtered (Some jan_1) (Some jan_1) sample_db = Inr rs"
    "set rs = {r \<in> set (rows sample_db). date_part (row_time r) = jan_1}"
    by blast
  with l show ?thesis by simp
qed

text \<open>
  C4. The query is to return exactly the rows whose timestamp lies between the first
  second of the start day and the last second of the end day, for every filter with
  both dates. On the sample table it does not, at two filters. With the end date
  9999-12-31 the first row lies in the interval and the query returns nothing: it
  stops with \<^verbatim>\<open>OverflowError\<close>, the day after the end date not being a date. With
  the start date 0999-01-01 and the end date 2024-01-31 the first row lies in the
  interval and the query returns the empty sequence: the lower bound is the text
  \<^verbatim>\<open>999-01-01 00:00:00\<close>, which sorts after every timestamp of the year 2024.
\<close>

theorem query_closed_interval_failing_inputs:
  "sample_row 1 ''2024-01-01 10:00:00'' 100 120 \<in> set (rows sample_db) \<and>
   valid_date jan_1 \<and> valid_date date_max \<and>
   in_interval jan_1 date_max (row_time (sample_row 1 ''2024-01-01 10:00:00'' 100 120)) \<and>
   load_audits_filtered (Some jan_1) (Some date_max) sample_db = Inl OverflowError \<and>
   valid_date jan_1_999 \<and> valid_date jan_31 \<and>
   in_interval jan_1_999 jan_31 (row_time (sample_row 1 ''2024-01-01 10:00:00'' 100 120)) \<and>
   load_audits_filtered (Some jan_1_999) (Some jan_31) sample_db = Inr []"
  by (simp add: in_interval_def query_eval date_eval)

text \<open>
  Where the years of both dates have four digits, a start date after the end date
  gives two bounds that no text lies between, and the query returns the empty
  sequence.
\<close>

lemma inverted_range_four_digit_years:
  assumes "four_digit_date lo" and "four_digit_date hi" and "date_key hi < date_key lo"
  shows "load_audits_filtered (Some lo) (Some hi) d = Inr []"
proof -
  note vl = four_digit_dateD(1) [OF assms(1)] and vh = four_digit_dateD(1) [OF assms(2)]
  have "hi \<noteq> date_max"
  proof
    assume "hi = date_max"
    with vl assms(3) show False
      by (auto simp add: date_max_def date_key_def valid_date_def days_in_month_def
            split: if_splits)
  qed
  with vh obtain n where n: "add_one_day hi = Inr n"
    using add_one_day_defined by blast
  have vn: "four_digit_date n" using assms(2) n by (rule add_one_day_four_digit)
  from add_one_day_succ [OF vl vh n] assms(3) have "date_key n \<le> date_key lo"
    by auto
  then have "datetime_key (at_time n 0 0 0) \<le> datetime_key (at_time lo 0 0 0)"
    by (simp add: datetime_key_midnight_le date_part_at_time)
  then have le: "strftime_date n @ '' 00:00:00'' \<le> strftime_date lo @ '' 00:00:00''"
    using strftime_datetime_le_iff [of "at_time n 0 0 0" "at_time lo 0 0 0"] vn assms(1)
    by (simp add: midnight_text four_digit_at_time)
  have "\<And>r. \<not> (strftime_date lo @ '' 00:00:00'' \<le> audit_datetime r \<and>
                audit_datetime r < strftime_date n @ '' 00:00:00'')"
    using le by (meson le_less_trans not_less)
  then have "filter (\<lambda>r. strftime_date lo @ '' 00:00:00'' \<le> audit_datetime r \<and>
                audit_datetime r < strftime_date n @ '' 00:00:00'') (rows d) = []"
    by (auto simp add: filter_empty_conv)
  then show ?thesis
    by (simp add: load_audits_filtered_def start_conditions_def end_conditions_def n)
qed

text \<open>
  C7. When both dates are given and the start date lies after the end date, the
  query is to return the empty sequence. On the sample table, with the start date
  2024-01-02 and the end date 0998-01-01, it returns the third row: the upper bound
  is the text \<^verbatim>\<open>998-01-02 00:00:00\<close>, which sorts after every timestamp of the
  year 2024.
\<close>

theorem query_inverted_range_failing_input:
  "valid_date jan_2 \<and> valid_date jan_1_998 \<and> date_key jan_1_998 < date_key jan_2 \<and>
   load_audits_filtered (Some jan_2) (Some jan_1_998) sample_db =
     Inr [sample_row 3 ''2024-01-02 08:30:00'' 70 60]"
  by (simp add: query_eval date_eval)

subsection \<open>The order of the result\<close>

lemma insert_desc_sorted:
  "datetime_desc xs \<Longrightarrow> datetime_desc (insert_desc r xs)"
  unfolding datetime_desc_def
  by (induction xs) (auto simp add: less_imp_le not_le intro: order_trans)

lemma order_by_datetime_desc_sorted: "datetime_desc (order_by_datetime_desc rs)"
proof (induction rs)
  case Nil
  show ?case by (simp add: datetime_desc_def)
next
  case (Cons r rs)
  then show ?case
    using insert_desc_sorted [of "order_by_datetime_desc rs" r]
    by (simp add: order_by_datetime_desc_def)
qed

lemma filter_insert_desc:
  "filter (\<lambda>x. audit_datetime x = t) (insert_desc r xs) =
   filter (\<lambda>x. audit_datetime x = t) (r # xs)"
  by (induction xs) auto

lemma order_by_datetime_desc_stable:
  "filter (\<lambda>x. audit_datetime x = t) (order_by_datetime_desc rs) =
   filter (\<lambda>x. audit_datetime x = t) rs"
proof (induction rs)
  case Nil
  show ?case by simp
next
  case (Cons r rs)
  have "order_by_datetime_desc (r # rs) = insert_desc r (order_by_datetime_desc rs)"
    by (simp add: order_by_datetime_desc_def)
  with Cons show ?case by (simp add: filter_insert_desc)
qed

lemma filter_ok_end_conditions:
  assumes "filter_ok lo hi"
  shows "\<exists>cs. end_conditions hi = Inr cs"
proof (cases hi)
  case None
  then show ?thesis by (simp add: end_conditions_def)
next
  case (Some x)
  with assms have "valid_date x" "x \<noteq> date_max" by (simp_all add: filter_ok_def)
  then obtain n where "add_one_day x = Inr n" using add_one_day_defined by blast
  with Some show ?thesis by (simp add: end_conditions_def)
qed

lemma load_audits_filtered_returns:
  assumes "filter_ok lo hi"
  shows "\<exists>p. load_audits_filtered lo hi d = Inr (order_by_datetime_desc (filter p (rows d)))"
proof -
  from filter_ok_end_conditions [OF assms] obtain cs where "end_conditions hi = Inr cs" ..
  then show ?thesis by (auto simp add: load_audits_filtered_def)
qed

lemma load_audits_filtered_subset:
  assumes "load_audits_filtered lo hi d = Inr rs"
  shows "set rs \<subseteq> set (rows d)"
  using assms by (auto simp add: load_audits_filtered_def Let_def split: sum.splits)

text \<open>
  C5, as stated, on the sample table: rows 1 and 2 carry the same timestamp and the
  unfiltered query returns row 1 before row 2, the smaller id first.
\<close>

theorem query_order_counterexample:
  "load_audits_filtered None None sample_db =
     Inr [sample_row 3 ''2024-01-02 08:30:00'' 70 60,
          sample_row 1 ''2024-01-01 10:00:00'' 100 120,
          sample_row 2 ''2024-01-01 10:00:00'' 50 50] \<and>
   audit_datetime (sample_row 1 ''2024-01-01 10:00:00'' 100 120) =
     audit_datetime (sample_row 2 ''2024-01-01 10:00:00'' 50 50) \<and>
   audit_id (sample_row 1 ''2024-01-01 10:00:00'' 100 120) <
     audit_id (sample_row 2 ''2024-01-01 10:00:00'' 50 50)"
  by (simp add: query_eval)

text \<open>
  C5, amended. For every filter of existing dates whose end date has a following
  day, the query returns its rows in descending order of timestamp; the clause
  names no second key, and rows of one timestamp come in the order of the table,
  ascending id.
\<close>

theorem query_order:
  assumes "filter_ok lo hi" and "sorted_wrt (<) (map audit_id (rows d))"
  shows "\<exists>rs. load_audits_filtered lo hi d = Inr rs \<and> datetime_desc rs \<and>
           (\<forall>t. sorted_wrt (<) (map audit_id (filter (\<lambda>r. audit_datetime r = t) rs)))"
proof -
  from load_audits_filtered_returns [OF assms(1)] obtain p where
    l: "load_audits_filtered lo hi d = Inr (order_by_datetime_desc (filter p (rows d)))" ..
  have "sorted_wrt (<) (map audit_id (filter (\<lambda>r. audit_datetime r = t) (filter p (rows d))))"
    for t
    using assms(2) by (simp add: sorted_wrt_map sorted_wrt_filter)
  then show ?thesis
    using l by (simp add: order_by_datetime_desc_sorted order_by_datetime_desc_stable)
qed

theorem query_order_witness:
  "filter_ok None None \<and> sorted_wrt (<) (map audit_id (rows sample_db)) \<and>
   (\<exists>rs. load_audits_filtered None None sample_db = Inr rs \<and> datetime_desc rs \<and>
      (\<forall>t. sorted_wrt (<) (map audit_id (filter (\<lambda>r. audit_datetime r = t) rs))))"
proof -
  have f: "filter_ok None None" by (simp add: filter_ok_def)
  from f sample_db_ids query_order [OF f sample_db_ids] show ?thesis by blast
qed

subsection \<open>Deleting\<close>

lemma count_by_id:
  "distinct (map audit_id rs) \<Longrightarrow>
   length (filter (\<lambda>r. audit_id r = x) rs) = (if x \<in> audit_id ` set rs then 1 else 0)"
  by (induction rs) auto

lemma filter_other_ids:
  "x \<notin> audit_id ` set rs \<Longrightarrow> filter (\<lambda>r. audit_id r \<noteq> x) rs = rs"
  by (induction rs) auto

text \<open>
  C6. With ids unique, as a primary key is: deleting id \<open>x\<close> returns 1 when a row
  with that id is stored and removes it, leaving the other rows as they were; no
  later query returns a row with id \<open>x\<close>; deleting an id that is not stored (a
  second deletion of \<open>x\<close> included) returns 0 and leaves the database as it is.
\<close>

theorem delete_one:
  assumes "distinct (map audit_id (rows d))"
  shows "(x \<in> audit_id ` set (rows d) \<longrightarrow> fst (delete_audit_by_id x d) = 1) \<and>
         (x \<notin> audit_id ` set (rows d) \<longrightarrow> delete_audit_by_id x d = (0, d)) \<and>
         x \<notin> audit_id ` set (rows (snd (delete_audit_by_id x d))) \<and>
         (\<forall>lo hi rs. load_audits_filtered lo hi (snd (delete_audit_by_id x d)) = Inr rs
              \<longrightarrow> x \<notin> audit_id ` set rs) \<and>
         fst (delete_audit_by_id x (snd (delete_audit_by_id x d))) = 0 \<and>
         set (rows (snd (delete_audit_by_id x d))) = {r \<in> set (rows d). audit_id r \<noteq> x}"
proof -
  have a: "x \<notin> audit_id ` set (rows (snd (delete_audit_by_id x d)))"
    by (auto simp add: delete_audit_by_id_def)
  have b: "x \<notin> audit_id ` set rs"
    if "load_audits_filtered lo hi (snd (delete_audit_by_id x d)) = Inr rs" for lo hi rs
    using load_audits_filtered_subset [OF that] a by blast
  have c: "fst (delete_audit_by_id x (snd (delete_audit_by_id x d))) = 0"
    by (simp add: delete_audit_by_id_def)
  have e: "x \<notin> audit_id ` set (rows d) \<longrightarrow> delete_audit_by_id x d = (0, d)"
    by (auto simp add: delete_audit_by_id_def filter_other_ids filter_empty_conv)
  have f: "x \<in> audit_id ` set (rows d) \<longrightarrow> fst (delete_audit_by_id x d) = 1"
    using count_by_id [OF assms, of x] by (simp add: delete_audit_by_id_def)
  have g: "set (rows (snd (delete_audit_by_id x d))) = {r \<in> set (rows d). audit_id r \<noteq> x}"
    by (auto simp add: delete_audit_by_id_def)
  from a b c e f g show ?thesis by blast
qed

theorem delete_one_witness:
  "distinct (map audit_id (rows sample_db)) \<and>
   delete_audit_by_id 2 sample_db =
     (1, \<lparr>rows = [sample_row 1 ''2024-01-01 10:00:00'' 100 120,
                  sample_row 3 ''2024-01-02 08:30:00'' 70 60], seq = 3\<rparr>) \<and>
   fst (delete_audit_by_id 2 (snd (delete_audit_by_id 2 sample_db))) = 0 \<and>
   delete_audit_by_id 7 sample_db = (0, sample_db)"
proof -
  have h: "distinct (map audit_id (rows sample_db))"
    by (simp add: sample_db_def sample_row_def)
  have "delete_audit_by_id 2 sample_db =
     (1, \<lparr>rows = [sample_row 1 ''2024-01-01 10:00:00'' 100 120,
                  sample_row 3 ''2024-01-02 08:30:00'' 70 60], seq = 3\<rparr>)"
    by (simp add: delete_audit_by_id_def sample_db_def sample_row_def)
  moreover have "7 \<notin> audit_id ` set (rows sample_db)"
    by (simp add: sample_db_def sample_row_def)
  ultimately show ?thesis
    using h delete_one [OF h, of 2] delete_one [OF h, of 7] by simp
qed

lemma load_audits_filtered_empty:
  assumes "filter_ok lo hi" and "rows d = []"
  shows "load_audits_filtered lo hi d = Inr []"
proof -
  from filter_ok_end_conditions [OF assms(1)] obtain cs where "end_conditions hi = Inr cs" ..
  with assms(2) show ?thesis by (simp add: load_audits_filtered_def)
qed

text \<open>
  C3. The delete-all form compares the typed password with the configured one as
  strings. When they differ it shows the rejection, changes nothing, and every query
  answers as before; when they are equal it deletes every row, reports how many rows
  there were, and every following query returns the empty sequence.
\<close>

theorem delete_all_password:
  "(admin_password w \<noteq> ADMIN_PASSWORD \<longrightarrow>
      delete_all_form DeleteAllAudits w st = ([WrongPassword], st, False) \<and>
      (\<forall>lo hi. load_audits_filtered lo hi (database (fst (snd (delete_all_form DeleteAllAudits w st))))
                 = load_audits_filtered lo hi (database st))) \<and>
   (admin_password w = ADMIN_PASSWORD \<longrightarrow>
      fst (delete_all_form DeleteAllAudits w st) = [DeletedAll (length (rows (database st)))] \<and>
      rows (database (fst (snd (delete_all_form DeleteAllAudits w st)))) = [] \<and>
      (\<forall>lo hi. filter_ok lo hi \<longrightarrow>
         load_audits_filtered lo hi (database (fst (snd (delete_all_form DeleteAllAudits w st))))
           = Inr [])) \<and>
   delete_all_audits d = (length (rows d), d\<lparr>rows := []\<rparr>)"
proof -
  have "rows (database (fst (snd (delete_all_form DeleteAllAudits w st)))) = []"
    if "admin_password w = ADMIN_PASSWORD"
    using that by (simp add: delete_all_form_def delete_all_audits_def)
  then show ?thesis
    by (auto simp add: delete_all_form_def delete_all_audits_def load_audits_filtered_empty)
qed

theorem delete_all_password_witness:
  "admin_password (sample_widgets\<lparr>admin_password := ''12345''\<rparr>) \<noteq> ADMIN_PASSWORD \<and>
   delete_all_form DeleteAllAudits (sample_widgets\<lparr>admin_password := ''12345''\<rparr>) sample_state
     = ([WrongPassword], sample_state, False) \<and>
   admin_password sample_widgets = ADMIN_PASSWORD \<and>
   fst (delete_all_form DeleteAllAudits sample_widgets sample_state) = [DeletedAll 3] \<and>
   filter_ok None None \<and>
   load_audits_filtered None None
     (database (fst (snd (delete_all_form DeleteAllAudits sample_widgets sample_state)))) = Inr []"
proof -
  have a: "admin_password (sample_widgets\<lparr>admin_password := ''12345''\<rparr>) \<noteq> ADMIN_PASSWORD"
    and b: "admin_password sample_widgets = ADMIN_PASSWORD"
    and c: "filter_ok None None"
    and n: "length (rows (database sample_state)) = 3"
    by (simp_all add: sample_widgets_def ADMIN_PASSWORD_def filter_ok_def sample_state_def
          sample_db_def)
  from a b c n
    delete_all_password [of "sample_widgets\<lparr>admin_password := ''12345''\<rparr>" sample_state]
    delete_all_password [of sample_widgets sample_state]
  show ?thesis by simp
qed

subsection \<open>The history table and the download\<close>

lemma display_selection_indices:
  "indices_of DISPLAY_SELECTION TABLE_COLUMNS = Some [0, 1, 2, 3, 4, 5, 6, 9, 8, 7]"
  by (simp add: DISPLAY_SELECTION_def TABLE_COLUMNS_def)

lemma display_names_renamed:
  "map (\<lambda>c. case map_of DISPLAY_NAMES c of None \<Rightarrow> c | Some c' \<Rightarrow> c') DISPLAY_SELECTION =
     [''ID'', ''PDV'', ''Data/Hora (BR)'', ''Operador(a)'', ''Fiscal'', ''Auditor'',
      ''Dinheiro Contado (R$)'', ''TEF Contado (R$)'', COL_DIFFERENCE, ''Valor Esperado (R$)'']"
  by (simp add: DISPLAY_SELECTION_def DISPLAY_NAMES_def)

lemma df_display_frame:
  "df_display (to_frame rs) =
     Some \<lparr>columns =
             [''ID'', ''PDV'', ''Data/Hora (BR)'', ''Operador(a)'', ''Fiscal'', ''Auditor'',
              ''Dinheiro Contado (R$)'', ''TEF Contado (R$)'', COL_DIFFERENCE,
              ''Valor Esperado (R$)''],
           data =
             map (\<lambda>r. [IntCell (audit_id r), TextCell (pdv_number r),
                        TextCell (audit_datetime r), TextCell (operator_name r),
                        TextCell (supervisor_name r), TextCell (prevention_name r),
                        NumCell (counted_value r), NumCell (tef_value r),
                        NumCell (difference r), NumCell (expected_value r)]) rs\<rparr>"
  by (simp add: df_display_def select_columns_def rename_columns_def to_frame_def
        display_selection_indices display_names_renamed row_cells_def)

lemma cols_to_display_indices:
  "indices_of cols_to_display
     [''ID'', ''PDV'', ''Data/Hora (BR)'', ''Operador(a)'', ''Fiscal'', ''Auditor'',
      ''Dinheiro Contado (R$)'', ''TEF Contado (R$)'', COL_DIFFERENCE, ''Valor Esperado (R$)'']
   = Some [0, 2, 1, 3, 4, 5, 6, 7, 8]"
  by (simp add: cols_to_display_def COL_DIFFERENCE_def)

lemma df_display_clean_frame:
  "df_display_clean (to_frame rs) =
     Some \<lparr>columns = cols_to_display,
           data =
             map (\<lambda>r. [IntCell (audit_id r), TextCell (audit_datetime r),
                        TextCell (pdv_number r), TextCell (operator_name r),
                        TextCell (supervisor_name r), TextCell (prevention_name r),
                        NumCell (counted_value r), NumCell (tef_value r),
                        NumCell (difference r)]) rs\<rparr>"
  by (simp add: df_display_clean_def df_display_frame select_columns_def
        cols_to_display_indices)

text \<open>
  C8, as stated, on one sample row: the sheet made for the download has ten columns,
  the terminal before the date and the expected value last, which is not the list of
  nine columns of the claim (that list is \<open>cols_to_display\<close>, the columns of the
  table on screen); and its monetary cells are the stored numbers, not currency text.
\<close>

theorem export_columns_counterexample:
  "map_option (map heading \<circ> convert_df_to_excel)
     (df_display (to_frame [sample_row 1 ''2024-01-01 10:00:00'' 1234.56 120])) =
     Some [[''ID'', ''PDV'', ''Data/Hora (BR)'', ''Operador(a)'', ''Fiscal'', ''Auditor'',
            ''Dinheiro Contado (R$)'', ''TEF Contado (R$)'', COL_DIFFERENCE,
            ''Valor Esperado (R$)'']] \<and>
   map_option (map heading \<circ> convert_df_to_excel)
     (df_display (to_frame [sample_row 1 ''2024-01-01 10:00:00'' 1234.56 120])) \<noteq>
     Some [cols_to_display] \<and>
   map_option (map body \<circ> convert_df_to_excel)
     (df_display (to_frame [sample_row 1 ''2024-01-01 10:00:00'' 1234.56 120])) =
     Some [[[IntCell 1, TextCell ''5'', TextCell ''2024-01-01 10:00:00'', TextCell ''A'',
             TextCell ''B'', TextCell ''C'', NumCell 1234.56, NumCell 120,
             NumCell 1114.56, NumCell 0]]]"
  by (simp add: df_display_frame convert_df_to_excel_def sample_row_def cols_to_display_def)

text \<open>
  C8, amended. The export is a function of the rows alone and gives one sheet,
  named \<^verbatim>\<open>Auditorias\<close>, made from \<^verbatim>\<open>df_display\<close>: the columns ID, terminal,
  date and time, operator, supervisor, auditor, counted cash, counted TEF,
  difference and expected value, in this order, with the monetary cells holding the
  stored numbers. The nine columns that start with ID, date and time, terminal and
  leave the expected value out are those of the table shown on screen.
\<close>

theorem export_columns:
  assumes "rs \<noteq> []"
  shows
    "history_section rs =
       Inr [HistoryTable
              \<lparr>columns = cols_to_display,
               data =
                 map (\<lambda>r. [IntCell (audit_id r), TextCell (audit_datetime r),
                            TextCell (pdv_number r), TextCell (operator_name r),
                            TextCell (supervisor_name r), TextCell (prevention_name r),
                            NumCell (counted_value r), NumCell (tef_value r),
                            NumCell (difference r)]) rs\<rparr>
              (highlight_difference (map difference rs)),
            DownloadButton
              [\<lparr>sheet_name = ''Auditorias'',
                heading =
                  [''ID'', ''PDV'', ''Data/Hora (BR)'', ''Operador(a)'', ''Fiscal'',
                   ''Auditor'', ''Dinheiro Contado (R$)'', ''TEF Contado (R$)'',
                   COL_DIFFERENCE, ''Valor Esperado (R$)''],
                body =
                  map (\<lambda>r. [IntCell (audit_id r), TextCell (pdv_number r),
                             TextCell (audit_datetime r), TextCell (operator_name r),
                             TextCell (supervisor_name r), TextCell (prevention_name r),
                             NumCell (counted_value r), NumCell (tef_value r),
                             NumCell (difference r), NumCell (expected_value r)]) rs\<rparr>]] \<and>
     length (convert_df_to_excel df) = 1 \<and>
     map heading (convert_df_to_excel df) = [columns df] \<and>
     map body (convert_df_to_excel df) = [data df]"
  using assms
  by (simp add: history_section_def df_display_frame df_display_clean_frame
        convert_df_to_excel_def)

theorem export_columns_witness:
  "[sample_row 1 ''2024-01-01 10:00:00'' 100 120] \<noteq> [] \<and>
   history_section [sample_row 1 ''2024-01-01 10:00:00'' 100 120] =
       Inr [HistoryTable
              \<lparr>columns = cols_to_display,
               data = [[IntCell 1, TextCell ''2024-01-01 10:00:00'', TextCell ''5'',
                        TextCell ''A'', TextCell ''B'', TextCell ''C'', NumCell 100,
                        NumCell 120, NumCell (- 20)]]\<rparr>
              [STYLE_RED],
            DownloadButton
              [\<lparr>sheet_name = ''Auditorias'',
                heading =
                  [''ID'', ''PDV'', ''Data/Hora (BR)'', ''Operador(a)'', ''Fiscal'',
                   ''Auditor'', ''Dinheiro Contado (R$)'', ''TEF Contado (R$)'',
                   COL_DIFFERENCE, ''Valor Esperado (R$)''],
                body = [[IntCell 1, TextCell ''5'', TextCell ''2024-01-01 10:00:00'',
                         TextCell ''A'', TextCell ''B'', TextCell ''C'', NumCell 100,
                         NumCell 120, NumCell (- 20), NumCell 0]]\<rparr>]]"
proof -
  have h: "[sample_row 1 ''2024-01-01 10:00:00'' 100 120] \<noteq> []" by simp
  from export_columns [OF h] show ?thesis by (simp add: sample_row_def)
qed

subsection \<open>Runs of the script\<close>

lemma alerts_of_append [simp]: "alerts_of (xs @ ys) = alerts_of xs @ alerts_of ys"
  by (induction xs rule: alerts_of.induct) simp_all

lemma alert_section_shown:
  "alerts_of (fst (alert_section st)) =
     (case audit_result st of None \<Rightarrow> [] | Some r \<Rightarrow> [render_alert r])"
  by (simp add: alert_section_def split: option.splits)

lemma alert_section_state:
  "audit_result (snd (alert_section st)) = None"
  "database (snd (alert_section st)) = database st"
  by (simp_all add: alert_section_def split: option.splits)

lemma audit_form_accepted:
  assumes "create_accepted pressed w fault"
  shows "audit_form pressed w now fault st =
           ([], st\<lparr>last_audit_id := next_id (database st),
                  audit_result := Some (published w),
                  database := \<lparr>rows = rows (database st) @ [created_row w now (database st)],
                               seq = next_id (database st)\<rparr>\<rparr>, True)"
  using assms
  by (simp add: audit_form_def create_accepted_def save_audit_def Let_def published_def
        created_row_def)

lemma audit_form_refused:
  assumes "\<not> create_accepted pressed w fault"
  shows "snd (audit_form pressed w now fault st) = (st, False)"
  using assms by (auto simp add: audit_form_def create_accepted_def Let_def)

lemma audit_form_no_alert: "alerts_of (fst (audit_form pressed w now fault st)) = []"
  by (simp add: audit_form_def Let_def split_def)

lemma history_section_no_alert:
  "history_section df = Inr n \<Longrightarrow> alerts_of n = []"
  by (auto simp add: history_section_def split: if_splits option.splits)

lemma delete_id_form_no_alert: "alerts_of (fst (delete_id_form pressed w df st)) = []"
  by (simp add: delete_id_form_def Let_def split_def split: list.splits)

lemma delete_id_form_result:
  "audit_result (fst (snd (delete_id_form pressed w df st))) = audit_result st"
  by (simp add: delete_id_form_def Let_def split_def)

lemma delete_id_form_rows:
  "set (rows (database (fst (snd (delete_id_form pressed w df st))))) \<subseteq> set (rows (database st))"
  by (auto simp add: delete_id_form_def Let_def split_def delete_audit_by_id_def)

lemma delete_all_form_no_alert: "alerts_of (fst (delete_all_form pressed w st)) = []"
  by (simp add: delete_all_form_def Let_def split_def)

lemma delete_all_form_result:
  "audit_result (fst (snd (delete_all_form pressed w st))) = audit_result st"
  by (simp add: delete_all_form_def Let_def split_def)

lemma delete_all_form_rows:
  "set (rows (database (fst (snd (delete_all_form pressed w st))))) \<subseteq> set (rows (database st))"
  by (auto simp add: delete_all_form_def Let_def split_def delete_all_audits_def)

lemma script_run_accepted:
  assumes "create_accepted pressed w fault"
  shows "script_run pressed w now fault st =
           (fst (alert_section st),
            (snd (alert_section st))
              \<lparr>last_audit_id := next_id (database st),
               audit_result := Some (published w),
               database := \<lparr>rows = rows (database st) @ [created_row w now (database st)],
                            seq = next_id (database st)\<rparr>\<rparr>, True)"
  by (simp add: script_run_def split_def Let_def audit_form_accepted [OF assms]
        alert_section_state)

lemma script_run_refused:
  assumes "\<not> create_accepted pressed w fault"
  shows "audit_result (fst (snd (script_run pressed w now fault st))) = None"
    and "set (rows (database (fst (snd (script_run pressed w now fault st)))))
           \<subseteq> set (rows (database st))"
proof -
  have a: "snd (audit_form pressed w now fault (snd (alert_section st)))
             = (snd (alert_section st), False)"
    using assms by (rule audit_form_refused)
  show "audit_result (fst (snd (script_run pressed w now fault st))) = None"
    by (simp add: script_run_def split_def Let_def a delete_id_form_result
          delete_all_form_result alert_section_state split: sum.splits)
  have "set (rows (database (fst (snd (delete_all_form pressed w
              (fst (snd (delete_id_form pressed w df (snd (alert_section st)))))))))) \<subseteq>
        set (rows (database st))" for df
    using delete_all_form_rows delete_id_form_rows alert_section_state(2)
    by (metis subset_trans)
  then show "set (rows (database (fst (snd (script_run pressed w now fault st)))))
           \<subseteq> set (rows (database st))"
    using delete_id_form_rows [of pressed w _ "snd (alert_section st)"]
    by (simp add: script_run_def split_def Let_def a alert_section_state split: sum.splits)
qed

lemma script_run_shown:
  "alerts_of (fst (script_run pressed w now fault st)) =
     (case audit_result st of None \<Rightarrow> [] | Some r \<Rightarrow> [render_alert r])"
  by (simp add: script_run_def split_def Let_def alert_section_shown audit_form_no_alert
        delete_id_form_no_alert delete_all_form_no_alert history_section_no_alert
      split: sum.splits)


lemma script_run_result:
  "audit_result (fst (snd (script_run pressed w now fault st))) =
     (if create_accepted pressed w fault then Some (published w) else None)"
  by (simp add: script_run_refused(1) script_run_accepted)

lemma no_button_refused: "\<not> create_accepted NoButton w fault"
  by (simp add: create_accepted_def)

lemma no_button_rows:
  "rows (database (fst (snd (script_run NoButton w now fault st)))) = rows (database st)"
proof -
  have a: "snd (audit_form NoButton w now fault (snd (alert_section st)))
             = (snd (alert_section st), False)"
    using no_button_refused by (rule audit_form_refused)
  have b: "snd (delete_id_form NoButton w df s) = (s, False)" for df s
    by (simp add: delete_id_form_def Let_def)
  have c: "snd (delete_all_form NoButton w s) = (s, False)" for s
    by (simp add: delete_all_form_def)
  show ?thesis
    by (simp add: script_run_def split_def Let_def a b c alert_section_state
        split: sum.splits)
qed

text \<open>
  C9. The slot \<^verbatim>\<open>audit_result\<close> holds one result or none. After a run it holds
  the result of the audit that run created, and nothing when the run created none,
  whatever it held before. A run shows exactly the alert of the result pending at
  its start. A run that creates an audit asks for a rerun, so the interaction ends
  with the slot empty and its pages show the new alert once; later interactions
  start from the empty slot and show it no more.
\<close>

theorem alert_slot_one_shot:
  "audit_result (fst (snd (script_run pressed w now fault st))) =
     (if create_accepted pressed w fault then Some (published w) else None) \<and>
   (create_accepted pressed w fault \<longrightarrow> snd (snd (script_run pressed w now fault st))) \<and>
   alerts_of (fst (script_run pressed w now fault st)) =
     (case audit_result st of None \<Rightarrow> [] | Some r \<Rightarrow> [render_alert r]) \<and>
   audit_result (snd (app_main pressed w now fault st)) = None \<and>
   concat (map alerts_of (fst (app_main pressed w now fault st))) =
     (case audit_result st of None \<Rightarrow> [] | Some r \<Rightarrow> [render_alert r]) @
     (if create_accepted pressed w fault then [render_alert (published w)] else [])"
proof -
  let ?run = "script_run pressed w now fault st"
  let ?st1 = "fst (snd ?run)"
  have r: "audit_result ?st1 = (if create_accepted pressed w fault then Some (published w) else None)"
    by (rule script_run_result)
  have rr: "create_accepted pressed w fault \<longrightarrow> snd (snd ?run)"
    by (simp add: script_run_accepted)
  have sh: "alerts_of (fst ?run) = (case audit_result st of None \<Rightarrow> [] | Some r \<Rightarrow> [render_alert r])"
    by (rule script_run_shown)
  have fin: "audit_result (snd (app_main pressed w now fault st)) = None"
    using r rr
    by (auto simp add: app_main_def split_def Let_def script_run_refused(1) [OF no_button_refused])
  have "concat (map alerts_of (fst (app_main pressed w now fault st))) =
     (case audit_result st of None \<Rightarrow> [] | Some r \<Rightarrow> [render_alert r]) @
     (if create_accepted pressed w fault then [render_alert (published w)] else [])"
    using r rr
    by (auto simp add: app_main_def split_def Let_def script_run_shown)
  with r rr sh fin show ?thesis by blast
qed

theorem alert_slot_one_shot_witness:
  "create_accepted RegisterAudit sample_widgets False \<and>
   audit_result sample_state = None \<and>
   audit_result (fst (snd (script_run RegisterAudit sample_widgets sample_now False sample_state)))
     = Some \<lparr>res_pdv_number = ''5'', res_difference = - 20, res_counted_value = 100,
             res_tef_value = 120\<rparr> \<and>
   snd (snd (script_run RegisterAudit sample_widgets sample_now False sample_state)) \<and>
   audit_result (snd (app_main RegisterAudit sample_widgets sample_now False sample_state))
     = None \<and>
   concat (map alerts_of
     (fst (app_main RegisterAudit sample_widgets sample_now False sample_state))) =
     [\<lparr>title = ''QUEBRA DE CAIXA NO PDV 5'', box_background = ''#fcebeb'',
       box_border = ''#cc0000''\<rparr>]"
proof -
  have a: "create_accepted RegisterAudit sample_widgets False"
    by (simp add: create_accepted_def sample_widgets_def PLACEHOLDER_def)
  have n: "audit_result sample_state = None" by (simp add: sample_state_def)
  have p: "published sample_widgets =
      \<lparr>res_pdv_number = ''5'', res_difference = - 20, res_counted_value = 100,
       res_tef_value = 120\<rparr>"
    by (simp add: published_def sample_widgets_def)
  have r: "render_alert \<lparr>res_pdv_number = ''5'', res_difference = - 20,
       res_counted_value = 100, res_tef_value = 120\<rparr> =
     \<lparr>title = ''QUEBRA DE CAIXA NO PDV 5'', box_background = ''#fcebeb'',
       box_border = ''#cc0000''\<rparr>"
    by (simp add: render_alert_def)
  from a n p r
    alert_slot_one_shot [of RegisterAudit sample_widgets sample_now False sample_state]
  show ?thesis by simp
qed

text \<open>
  C1. An interaction that creates an audit appends one row whose counted and TEF
  values are those of the form and whose difference is the first minus the second;
  an interaction that creates none leaves only rows that were stored before, each as
  it was. So every row of a table built by the application keeps a difference equal
  to its counted value minus its TEF value.
\<close>

theorem difference_invariant:
  "(create_accepted pressed w fault \<longrightarrow>
      rows (database (snd (app_main pressed w now fault st))) =
        rows (database st) @ [created_row w now (database st)] \<and>
      counted_value (created_row w now (database st)) = counted_input w \<and>
      tef_value (created_row w now (database st)) = tef_input w \<and>
      difference (created_row w now (database st)) = counted_input w - tef_input w) \<and>
   (\<not> create_accepted pressed w fault \<longrightarrow>
      set (rows (database (snd (app_main pressed w now fault st)))) \<subseteq> set (rows (database st))) \<and>
   (diff_inv (database st) \<longrightarrow> diff_inv (database (snd (app_main pressed w now fault st)))) \<and>
   diff_inv (init_db None)"
proof -
  let ?st' = "snd (app_main pressed w now fault st)"
  let ?st1 = "fst (snd (script_run pressed w now fault st))"
  have same: "rows (database ?st') = rows (database ?st1)"
    by (simp add: app_main_def split_def Let_def no_button_rows)
  have acc: "rows (database ?st') = rows (database st) @ [created_row w now (database st)]"
    if "create_accepted pressed w fault"
    using that same by (simp add: script_run_accepted)
  have ref: "set (rows (database ?st')) \<subseteq> set (rows (database st))"
    if "\<not> create_accepted pressed w fault"
    using script_run_refused(2) [OF that] same by simp
  have new: "difference (created_row w now (database st)) =
      counted_value (created_row w now (database st)) - tef_value (created_row w now (database st))"
    by (simp add: created_row_def)
  have inv: "diff_inv (database ?st')" if i: "diff_inv (database st)"
  proof (cases "create_accepted pressed w fault")
    case True
    from acc [OF True] i new show ?thesis by (simp add: diff_inv_def)
  next
    case False
    from ref [OF False] i show ?thesis by (auto simp add: diff_inv_def list_all_iff)
  qed
  have "diff_inv (init_db None)" by (simp add: diff_inv_def init_db_def)
  with acc ref inv show ?thesis by (simp add: created_row_def)
qed

theorem difference_invariant_witness:
  "create_accepted RegisterAudit sample_widgets False \<and>
   diff_inv (database sample_state) \<and>
   rows (database (snd (app_main RegisterAudit sample_widgets sample_now False sample_state)))
     = rows sample_db @
       [\<lparr>audit_id = 4, pdv_number = ''5'', audit_datetime = ''2024-01-03 09:15:00'',
         operator_name = ''A'', supervisor_name = ''B'', prevention_name = ''C'',
         counted_value = 100, expected_value = 0, difference = - 20, tef_value = 120\<rparr>] \<and>
   diff_inv (database
     (snd (app_main RegisterAudit sample_widgets sample_now False sample_state))) \<and>
   \<not> create_accepted DeleteSelectedId sample_widgets False \<and>
   set (rows (database
     (snd (app_main DeleteSelectedId sample_widgets sample_now False sample_state))))
     \<subseteq> set (rows sample_db)"
proof -
  have a: "create_accepted RegisterAudit sample_widgets False"
    by (simp add: create_accepted_def sample_widgets_def PLACEHOLDER_def)
  have b: "\<not> create_accepted DeleteSelectedId sample_widgets False"
    by (simp add: create_accepted_def)
  have d: "database sample_state = sample_db" by (simp add: sample_state_def)
  have i: "diff_inv (database sample_state)"
    by (simp add: d diff_inv_def sample_db_def sample_row_def)
  have c: "created_row sample_widgets sample_now sample_db =
       \<lparr>audit_id = 4, pdv_number = ''5'', audit_datetime = ''2024-01-03 09:15:00'',
         operator_name = ''A'', supervisor_name = ''B'', prevention_name = ''C'',
         counted_value = 100, expected_value = 0, difference = - 20, tef_value = 120\<rparr>"
    by (simp add: created_row_def sample_widgets_def sample_now_def next_id_def
          sample_db_def sample_row_def date_eval)
  from a b i c
    difference_invariant [of RegisterAudit sample_widgets False sample_now sample_state]
    difference_invariant [of DeleteSelectedId sample_widgets False sample_now sample_state]
  show ?thesis by (simp add: d)
qed

subsection \<open>Tables built by the application\<close>

text \<open>
  The assumptions made on the table above (timestamps that are texts of civil times,
  ids that are unique and grow along the table) hold of the empty table and are kept
  by every interaction, whenever the clock reads a civil time of a year with four
  digits: reading a written timestamp back gives the clock reading, and a new id
  is larger than every id present.
\<close>

lemma foldl_pad2:
  assumes "n < 100"
  shows "foldl (\<lambda>a c. 10 * a + digit_val c) k (pad2 n) = 100 * k + n"
proof -
  from assms have t: "n div 10 mod 10 = n div 10" and u: "n div 10 < 10" by simp_all
  have "foldl (\<lambda>a c. 10 * a + digit_val c) k (pad2 n) = 10 * (10 * k + n div 10) + n mod 10"
    by (simp add: pad2_def digit_val_digit_char t u)
  also have "\<dots> = 100 * k + (10 * (n div 10) + n mod 10)" by simp
  also have "10 * (n div 10) + n mod 10 = n" by simp
  finally show ?thesis .
qed

lemma foldl_pad4:
  assumes "n < 10000"
  shows "foldl (\<lambda>a c. 10 * a + digit_val c) 0 (pad4 n) = n"
proof -
  from assms have "n div 100 < 100" by simp
  then show ?thesis by (simp add: pad4_split foldl_pad2)
qed

lemma parse_strftime:
  assumes "four_digit_time t"
  shows "parse_datetime (strftime_datetime t) = t"
proof -
  note f = four_digit_timeD(2) [OF assms]
  from assms have v: "valid_date (date_part t)"
    and b: "hour t < 100" "minute t < 100" "second t < 100"
    by (simp_all add: four_digit_time_def valid_datetime_def)
  note d = valid_date_bounds [OF v]
  note sd = strftime_date_four_digit [OF f]
  have "num_at (strftime_datetime t) 0 4 = year (date_part t)"
    by (simp add: num_at_def strftime_datetime_def sd foldl_pad4 [OF d(1)])
  moreover have "num_at (strftime_datetime t) 5 2 = month (date_part t)"
    by (simp add: num_at_def strftime_datetime_def sd foldl_pad2 [OF d(2)])
  moreover have "num_at (strftime_datetime t) 8 2 = day (date_part t)"
    by (simp add: num_at_def strftime_datetime_def sd foldl_pad2 [OF d(3)])
  moreover have "num_at (strftime_datetime t) 11 2 = hour t"
    by (simp add: num_at_def strftime_datetime_def sd foldl_pad2 [OF b(1)])
  moreover have "num_at (strftime_datetime t) 14 2 = minute t"
    by (simp add: num_at_def strftime_datetime_def sd foldl_pad2 [OF b(2)])
  moreover have "num_at (strftime_datetime t) 17 2 = second t"
    by (simp add: num_at_def strftime_datetime_def sd foldl_pad2 [OF b(3)])
  ultimately show ?thesis by (simp add: parse_datetime_def)
qed

lemma wf_timestamp_strftime: "four_digit_time t \<Longrightarrow> wf_timestamp (strftime_datetime t)"
  by (simp add: wf_timestamp_def parse_strftime four_digit_time_def)

lemma fold_max_ge: "(a::nat) \<le> fold max xs a"
  by (induction xs arbitrary: a) (auto intro: order_trans [OF max.cobounded2])

lemma fold_max_mem: "x \<in> set xs \<Longrightarrow> (x::nat) \<le> fold max xs a"
proof (induction xs arbitrary: a)
  case Nil
  then show ?case by simp
next
  case (Cons y ys)
  show ?case
  proof (cases "x = y")
    case True
    have "y \<le> max y a" by simp
    also have "\<dots> \<le> fold max ys (max y a)" by (rule fold_max_ge)
    finally show ?thesis using True by simp
  next
    case False
    with Cons show ?thesis by simp
  qed
qed

lemma next_id_fresh: "r \<in> set (rows d) \<Longrightarrow> audit_id r < next_id d"
  using fold_max_mem [of "audit_id r" "map audit_id (rows d)" "seq d"]
  by (simp add: next_id_def less_Suc_eq_le)

lemma wf_db_init: "wf_db (init_db None)"
  by (simp add: wf_db_def init_db_def)

lemma wf_db_save_audit:
  assumes "wf_db d" "four_digit_time now"
  shows "wf_db (snd (save_audit pdv operator supervisor prevention counted expected diff tef now d))"
  using assms
  by (auto simp add: wf_db_def save_audit_def Let_def wf_timestamp_strftime
        sorted_wrt_append next_id_fresh)

lemma wf_db_filter:
  assumes "wf_db d" "rows d' = filter P (rows d)"
  shows "wf_db d'"
  using assms
  by (auto simp add: wf_db_def list_all_iff sorted_wrt_map sorted_wrt_filter)

lemma wf_db_distinct: "wf_db d \<Longrightarrow> distinct (map audit_id (rows d))"
  by (simp add: wf_db_def strict_sorted_iff)


lemma delete_id_form_filter:
  "\<exists>P. rows (database (fst (snd (delete_id_form pressed w df st)))) =
        filter P (rows (database st))"
proof (cases "pressed = DeleteSelectedId \<and> df \<noteq> [] \<and>
              input_delete_id w \<in> set (map audit_id df)")
  case True
  then have "rows (database (fst (snd (delete_id_form pressed w df st)))) =
      filter (\<lambda>r. audit_id r \<noteq> input_delete_id w) (rows (database st))"
    by (simp add: delete_id_form_def Let_def split_def delete_audit_by_id_def)
  then show ?thesis by blast
next
  case False
  then have "rows (database (fst (snd (delete_id_form pressed w df st)))) =
      filter (\<lambda>r. True) (rows (database st))"
    by (auto simp add: delete_id_form_def Let_def split_def)
  then show ?thesis by blast
qed

lemma delete_all_form_filter:
  "\<exists>P. rows (database (fst (snd (delete_all_form pressed w st)))) =
        filter P (rows (database st))"
proof (cases "pressed = DeleteAllAudits \<and> admin_password w = ADMIN_PASSWORD")
  case True
  then have "rows (database (fst (snd (delete_all_form pressed w st)))) =
      filter (\<lambda>r. False) (rows (database st))"
    by (simp add: delete_all_form_def Let_def split_def delete_all_audits_def)
  then show ?thesis by blast
next
  case False
  then have "rows (database (fst (snd (delete_all_form pressed w st)))) =
      filter (\<lambda>r. True) (rows (database st))"
    by (auto simp add: delete_all_form_def Let_def split_def)
  then show ?thesis by blast
qed

lemma wf_db_delete_forms:
  assumes "wf_db (database st)"
  shows "wf_db (database (fst (snd (delete_id_form pressed w df st))))"
    and "wf_db (database (fst (snd (delete_all_form pressed w st))))"
  using delete_id_form_filter [of pressed w df st] delete_all_form_filter [of pressed w st]
    wf_db_filter [OF assms]
  by blast+

lemma wf_db_script_run:
  assumes "wf_db (database st)" "four_digit_time now"
  shows "wf_db (database (fst (snd (script_run pressed w now fault st))))"
proof (cases "create_accepted pressed w fault")
  case True
  have "wf_db (snd (save_audit (pdv_select w) (operator_select w) (supervisor_select w)
          (prevention_select w) (counted_input w) 0 (counted_input w - tef_input w)
          (tef_input w) now (database st)))"
    using assms by (rule wf_db_save_audit)
  then show ?thesis
    by (simp add: script_run_accepted [OF True] save_audit_def Let_def created_row_def)
next
  case False
  have a: "snd (audit_form pressed w now fault (snd (alert_section st)))
             = (snd (alert_section st), False)"
    using False by (rule audit_form_refused)
  have s: "wf_db (database (snd (alert_section st)))"
    using assms(1) by (simp add: alert_section_state)
  show ?thesis
    using s wf_db_delete_forms
    by (simp add: script_run_def split_def Let_def a split: sum.splits)
qed

lemma wf_db_app_main:
  assumes "wf_db (database st)" "four_digit_time now"
  shows "wf_db (database (snd (app_main pressed w now fault st)))"
  using wf_db_script_run [OF assms]
  using wf_db_script_run [OF _ assms(2), of "fst (snd (script_run pressed w now fault st))"]
  by (simp add: app_main_def split_def Let_def)

lemma wf_db_hypotheses:
  assumes "wf_db d"
  shows "list_all (\<lambda>r. wf_timestamp (audit_datetime r)) (rows d)"
    and "sorted_wrt (<) (map audit_id (rows d))"
    and "distinct (map audit_id (rows d))"
  using assms wf_db_distinct by (simp_all add: wf_db_def)

end
